theory Spec2Isabelle
  imports Main
begin

section \<open>Template parameters and type traits\<close>

text \<open>
  \<open>efl::Poly<Base, Derived...>\<close> is a class template. Its parameters, and what the
  standard type traits say about them, are collected in one record: the capability
  interface \<open>Base\<close>, the ordered pack \<open>Derived...\<close>, whether a type is abstract, and
  which special member functions a type offers. \<open>moved_from T v\<close> is the value a
  \<open>T\<close> object is left with after its value \<open>v\<close> has been moved out of it.
  Copy construction yields an object with the same value, and move construction
  gives the new object the value the old one had. \<open>base_offset T\<close> is the
  offset, inside an object of a derived type \<open>T\<close>, of its \<open>Base\<close> subobject:
  0 when \<open>Base\<close> is the first base class, more when other base classes or a
  virtual table pointer of its own come first.
\<close>

record ('t, 'v) params =
  Base :: 't
  Derived :: "'t list"
  is_abstract :: "'t \<Rightarrow> bool"
  copy_ctor :: "'t \<Rightarrow> bool"
  copy_assign :: "'t \<Rightarrow> bool"
  move_ctor :: "'t \<Rightarrow> bool"
  move_assign :: "'t \<Rightarrow> bool"
  moved_from :: "'t \<Rightarrow> 'v \<Rightarrow> 'v"
  base_offset :: "'t \<Rightarrow> nat"

text \<open>
  The standard traits used by the header. An abstract class is not constructible
  from anything, so \<open>std::is_copy_constructible_v\<close> and
  \<open>std::is_move_constructible_v\<close> are false for it.
\<close>

definition is_copy_constructible_v :: "('t, 'v) params \<Rightarrow> 't \<Rightarrow> bool" where
  "is_copy_constructible_v env T = (\<not> is_abstract env T \<and> copy_ctor env T)"

definition is_copy_assignable_v :: "('t, 'v) params \<Rightarrow> 't \<Rightarrow> bool" where
  "is_copy_assignable_v env T = copy_assign env T"

definition is_move_constructible_v :: "('t, 'v) params \<Rightarrow> 't \<Rightarrow> bool" where
  "is_move_constructible_v env T = (\<not> is_abstract env T \<and> move_ctor env T)"

definition is_move_assignable_v :: "('t, 'v) params \<Rightarrow> 't \<Rightarrow> bool" where
  "is_move_assignable_v env T = move_assign env T"

text \<open>The concepts of namespace \<open>efl::H\<close>; the fold expressions are left folds.\<close>

definition matches_any :: "'t \<Rightarrow> 't list \<Rightarrow> bool" where
  "matches_any T UU = foldl (\<lambda>b U. b \<or> T = U) False UU"

definition copyable :: "('t, 'v) params \<Rightarrow> 't \<Rightarrow> bool" where
  "copyable env T = (is_copy_constructible_v env T \<and> is_copy_assignable_v env T)"

definition movable :: "('t, 'v) params \<Rightarrow> 't \<Rightarrow> bool" where
  "movable env T = (is_move_constructible_v env T \<and> is_move_assignable_v env T)"

definition all_copyable :: "('t, 'v) params \<Rightarrow> 't list \<Rightarrow> bool" where
  "all_copyable env TT = foldl (\<lambda>b T. b \<and> copyable env T) True TT"

definition all_movable :: "('t, 'v) params \<Rightarrow> 't list \<Rightarrow> bool" where
  "all_movable env TT = foldl (\<lambda>b T. b \<and> movable env T) True TT"

section \<open>Failures\<close>

text \<open>
  \<open>Rejected\<close>: the program is refused at compile time (an unsatisfied
  \<open>requires\<close> clause, a failed \<open>static_assert\<close>, an overload set with no or
  with several candidates). \<open>AssertionFailed\<close>: \<open>POLY_ASSERT\<close> fails at run
  time. \<open>Undefined\<close>: the program reads or destroys an object that is not there.
\<close>

datatype failure = Rejected | AssertionFailed | Undefined

definition and_then :: "failure + 'a \<Rightarrow> ('a \<Rightarrow> failure + 'b) \<Rightarrow> failure + 'b" where
  "and_then m f = (case m of Inl e \<Rightarrow> Inl e | Inr x \<Rightarrow> f x)"

section \<open>The type tag registry\<close>

text \<open>
  \<open>PolyNode<T, I>\<close> offers two overloads: \<open>IGetID\<close> takes \<open>TyNode<T>\<close> and
  returns \<open>IdNode<I + 1>\<close>, \<open>IGetTy\<close> takes \<open>IdNode<I + 1>\<close> and returns
  \<open>TyNode<T>\<close>. \<open>IPoly<index_sequence<II...>, TT...>\<close> inherits from
  \<open>PolyNode<TT, II>...\<close> and brings all these overloads into one scope; a call is
  well-formed when exactly one of them accepts the argument. The member \<open>value\<close>
  of a node is written \<open>value'\<close>. \<open>ID<T>\<close> is \<open>GetID<T>().value\<close>, the number
  carried by the \<open>IdNode\<close> that \<open>IGetID\<close> returns.
\<close>

datatype 't PolyNode = PolyNode (Type : 't) (value' : nat)

fun resolve :: "'a list \<Rightarrow> failure + 'a" where
  "resolve [x] = Inr x"
| "resolve _ = Inl Rejected"

definition IGetID :: "'t PolyNode list \<Rightarrow> 't \<Rightarrow> failure + nat" where
  "IGetID nodes U =
     and_then (resolve (filter (\<lambda>n. Type n = U) nodes)) (\<lambda>n. Inr (value' n + 1))"

definition IGetTy :: "'t PolyNode list \<Rightarrow> nat \<Rightarrow> failure + 't" where
  "IGetTy nodes K =
     and_then (resolve (filter (\<lambda>n. value' n + 1 = K) nodes)) (\<lambda>n. Inr (Type n))"

definition IPoly :: "nat list \<Rightarrow> 't list \<Rightarrow> 't PolyNode list" where
  "IPoly II TT = map2 PolyNode TT II"

definition IPolyBase :: "'t list \<Rightarrow> 't PolyNode list" where
  "IPolyBase TT = IPoly [0..<length TT] TT"

definition BaseType :: "('t, 'v) params \<Rightarrow> 't PolyNode list" where
  "BaseType env = IPolyBase (Base env # Derived env)"

definition GetID :: "('t, 'v) params \<Rightarrow> 't \<Rightarrow> failure + nat" where
  "GetID env U = IGetID (BaseType env) U"

definition GetTy :: "('t, 'v) params \<Rightarrow> nat \<Rightarrow> failure + 't" where
  "GetTy env I = IGetTy (BaseType env) (I + 1)"

definition ID :: "('t, 'v) params \<Rightarrow> 't \<Rightarrow> failure + nat" where
  "ID env T = GetID env T"

definition Size :: "('t, 'v) params \<Rightarrow> nat" where
  "Size env = length (Derived env) + 1"

section \<open>Objects, pointers and the store\<close>

text \<open>
  A \<open>Poly\<close> object has two members: the storage \<open>data_\<close> and the tag \<open>id_\<close>
  (written \<open>data'\<close> and \<open>id'\<close> here). The storage is raw memory; what the model keeps
  of it is the object that currently lives in it, with its concrete type, or
  \<open>None\<close> when no object lives there. The tag is kept separately, as in the
  source, so that the two can disagree.

  Objects are held in a store indexed by address, because the assignment operators
  take their argument by reference and the argument may be the receiver itself.
  Every initialisation of a storage, every write to a tag, every construction in a
  storage, every destructor call and every call of a logging callback is appended
  to a trace.
\<close>

type_synonym addr = nat

record ('t, 'v) Poly =
  data' :: "('t \<times> 'v) option"
  id' :: nat

datatype 't pointer = Pointer (pointee : 't) (target : "addr option")

datatype ('t, 'v) event =
    InitData addr
  | SetTag addr nat
  | CopyConstruct addr 't 'v
  | MoveConstruct addr 't 'v
  | Destroy addr 't 'v
  | Call "'t pointer"

record ('t, 'v) machine =
  objs :: "addr \<Rightarrow> ('t, 'v) Poly"
  trace :: "('t, 'v) event list"

type_synonym ('t, 'v) callback =
  "'t pointer \<Rightarrow> ('t, 'v) machine \<Rightarrow> failure + ('t, 'v) machine"

text \<open>The member initialiser \<open>data_ {}\<close>: fresh storage, nothing lives in it.\<close>

definition init_data :: "addr \<Rightarrow> ('t, 'v) machine \<Rightarrow> ('t, 'v) machine" where
  "init_data this s =
     s\<lparr>objs := (objs s)(this := (objs s this)\<lparr>data' := None\<rparr>),
       trace := trace s @ [InitData this]\<rparr>"

text \<open>A write to \<open>id_\<close>.\<close>

definition set_id :: "addr \<Rightarrow> nat \<Rightarrow> ('t, 'v) machine \<Rightarrow> ('t, 'v) machine" where
  "set_id this k s =
     s\<lparr>objs := (objs s)(this := (objs s this)\<lparr>id' := k\<rparr>),
       trace := trace s @ [SetTag this k]\<rparr>"

text \<open>
  Reading \<open>*P\<close> through a typed pointer: defined only when the pointer is not
  null and an object of exactly the pointee type lives at the target.
\<close>

definition deref :: "'t pointer \<Rightarrow> ('t, 'v) machine \<Rightarrow> failure + 'v" where
  "deref P s =
     (case target P of
        None \<Rightarrow> Inl Undefined
      | Some a \<Rightarrow>
          (case data' (objs s a) of
             None \<Rightarrow> Inl Undefined
           | Some (T, v) \<Rightarrow> if T = pointee P then Inr v else Inl Undefined))"

text \<open>\<open>new (this->data_.raw_) T{u}\<close> with \<open>u\<close> an lvalue: copy construction in place.\<close>

definition new_copy :: "addr \<Rightarrow> 't \<Rightarrow> 'v \<Rightarrow> ('t, 'v) machine \<Rightarrow> ('t, 'v) machine" where
  "new_copy this T v s =
     s\<lparr>objs := (objs s)(this := (objs s this)\<lparr>data' := Some (T, v)\<rparr>),
       trace := trace s @ [CopyConstruct this T v]\<rparr>"

text \<open>\<open>new (this->data_.raw_) T{std::move(u)}\<close>: move construction in place.\<close>

definition new_move :: "addr \<Rightarrow> 't \<Rightarrow> 'v \<Rightarrow> ('t, 'v) machine \<Rightarrow> ('t, 'v) machine" where
  "new_move this T v s =
     s\<lparr>objs := (objs s)(this := (objs s this)\<lparr>data' := Some (T, v)\<rparr>),
       trace := trace s @ [MoveConstruct this T v]\<rparr>"

text \<open>\<open>new (this->data_.raw_) T{*P}\<close>.\<close>

definition copy_from :: "addr \<Rightarrow> ('t, 'v) callback" where
  "copy_from this P s = and_then (deref P s) (\<lambda>v. Inr (new_copy this (pointee P) v s))"

text \<open>
  \<open>new (this->data_.raw_) T{std::move(*P)}\<close>: the object behind \<open>P\<close> stays
  alive, in its moved-from state.
\<close>

definition leave_moved :: "('t, 'v) params \<Rightarrow> 't pointer \<Rightarrow> 'v \<Rightarrow> ('t, 'v) machine \<Rightarrow> ('t, 'v) machine" where
  "leave_moved env P v s =
     (case target P of
        None \<Rightarrow> s
      | Some a \<Rightarrow>
          s\<lparr>objs := (objs s)(a := (objs s a)\<lparr>data' := Some (pointee P, moved_from env (pointee P) v)\<rparr>)\<rparr>)"

definition move_from :: "('t, 'v) params \<Rightarrow> addr \<Rightarrow> ('t, 'v) callback" where
  "move_from env this P s =
     and_then (deref P s) (\<lambda>v. Inr (new_move this (pointee P) v (leave_moved env P v s)))"

text \<open>\<open>P->~T()\<close>: the lifetime of the object behind \<open>P\<close> ends.\<close>

definition destroyed :: "addr \<Rightarrow> 't \<Rightarrow> 'v \<Rightarrow> ('t, 'v) machine \<Rightarrow> ('t, 'v) machine" where
  "destroyed a T v s =
     s\<lparr>objs := (objs s)(a := (objs s a)\<lparr>data' := None\<rparr>),
       trace := trace s @ [Destroy a T v]\<rparr>"

definition destroy_at :: "('t, 'v) callback" where
  "destroy_at P s =
     and_then (deref P s) (\<lambda>v.
       (case target P of
          None \<Rightarrow> Inl Undefined
        | Some a \<Rightarrow> Inr (destroyed a (pointee P) v s)))"

section \<open>Observers\<close>

definition holdsAny :: "addr \<Rightarrow> ('t, 'v) machine \<Rightarrow> bool" where
  "holdsAny this s = (id' (objs s this) \<noteq> 0)"

definition isEmpty :: "addr \<Rightarrow> ('t, 'v) machine \<Rightarrow> bool" where
  "isEmpty this s = (id' (objs s this) = 0)"

definition holdsType :: "('t, 'v) params \<Rightarrow> 't \<Rightarrow> addr \<Rightarrow> ('t, 'v) machine \<Rightarrow> failure + bool" where
  "holdsType env T this s =
     (if \<not> matches_any T (Base env # Derived env) then Inl Rejected
      else and_then (ID env T) (\<lambda>k. Inr (id' (objs s this) = k)))"

section \<open>Dispatch\<close>

text \<open>
  \<open>getPtr\<close> returns a \<open>Base*\<close>: null when the tag is 0, the address of the
  storage otherwise. \<open>launder_cast<T>\<close> changes the static type of the pointer
  and keeps its target. The const and the non-const overloads have the same body.
\<close>

definition getPtr :: "('t, 'v) params \<Rightarrow> addr \<Rightarrow> ('t, 'v) machine \<Rightarrow> 't pointer" where
  "getPtr env this s =
     (if id' (objs s this) = 0 then Pointer (Base env) None
      else Pointer (Base env) (Some this))"

definition launder_cast :: "'t \<Rightarrow> 't pointer \<Rightarrow> 't pointer" where
  "launder_cast To from = Pointer To (target from)"

text \<open>
  \<open>visit_<T, Next...>\<close>: the scan over the type list. The empty list is the
  overload constrained by \<open>sizeof...(Next) == 0\<close>, which returns.
\<close>

fun visit' :: "('t, 'v) params \<Rightarrow> 't list \<Rightarrow> ('t, 'v) callback \<Rightarrow> addr \<Rightarrow> ('t, 'v) machine
    \<Rightarrow> failure + ('t, 'v) machine" where
  "visit' env [] F this s = Inr s"
| "visit' env (T # Next) F this s =
     and_then (ID env T) (\<lambda>k.
       if k \<noteq> id' (objs s this) then visit' env Next F this s
       else F (launder_cast T (getPtr env this s)) s)"

definition visit :: "('t, 'v) params \<Rightarrow> ('t, 'v) callback \<Rightarrow> addr \<Rightarrow> ('t, 'v) machine
    \<Rightarrow> failure + ('t, 'v) machine" where
  "visit env F this s =
     (if isEmpty this s then Inr s
      else visit' env (Base env # Derived env) F this s)"

text \<open>The overload \<open>visit(auto&& F) const\<close>, with the const \<open>visit_\<close>.\<close>

fun visit_const' :: "('t, 'v) params \<Rightarrow> 't list \<Rightarrow> ('t, 'v) callback \<Rightarrow> addr \<Rightarrow> ('t, 'v) machine
    \<Rightarrow> failure + ('t, 'v) machine" where
  "visit_const' env [] F this s = Inr s"
| "visit_const' env (T # Next) F this s =
     and_then (ID env T) (\<lambda>k.
       if k \<noteq> id' (objs s this) then visit_const' env Next F this s
       else F (launder_cast T (getPtr env this s)) s)"

definition visit_const :: "('t, 'v) params \<Rightarrow> ('t, 'v) callback \<Rightarrow> addr \<Rightarrow> ('t, 'v) machine
    \<Rightarrow> failure + ('t, 'v) machine" where
  "visit_const env F this s =
     (if isEmpty this s then Inr s
      else visit_const' env (Base env # Derived env) F this s)"

text \<open>
  \<open>operator->\<close>, const and non-const: \<open>POLY_ASSERT(holdsAny())\<close>, then
  \<open>getPtr()\<close>.
\<close>

definition arrow :: "('t, 'v) params \<Rightarrow> addr \<Rightarrow> ('t, 'v) machine \<Rightarrow> failure + 't pointer" where
  "arrow env this s =
     (if \<not> holdsAny this s then Inl AssertionFailed else Inr (getPtr env this s))"

definition arrow_const :: "('t, 'v) params \<Rightarrow> addr \<Rightarrow> ('t, 'v) machine \<Rightarrow> failure + 't pointer" where
  "arrow_const env this s =
     (if \<not> holdsAny this s then Inl AssertionFailed else Inr (getPtr env this s))"

text \<open>
  A call of a virtual member function of \<open>Base\<close> through a \<open>Base*\<close>, as in
  \<open>x->saySomething()\<close>. A pointer of the model is at the first byte of the storage
  of a container, where the held object begins. The call is defined when the
  \<open>Base\<close> subobject of the held object begins there too; the function that runs is
  then that of the held object's type, on the held object. \<open>arrow_call\<close> is the
  whole expression \<open>x->f()\<close>.
\<close>

definition subobject_offset :: "('t, 'v) params \<Rightarrow> 't \<Rightarrow> nat" where
  "subobject_offset env T = (if T = Base env then 0 else base_offset env T)"

definition interface_call :: "('t, 'v) params \<Rightarrow> 't pointer \<Rightarrow> ('t, 'v) machine \<Rightarrow> failure + ('t \<times> 'v)" where
  "interface_call env P s =
     (case target P of
        None \<Rightarrow> Inl Undefined
      | Some a \<Rightarrow>
          (case data' (objs s a) of
             None \<Rightarrow> Inl Undefined
           | Some (T, v) \<Rightarrow>
               if pointee P = Base env \<and> subobject_offset env T = 0 then Inr (T, v)
               else Inl Undefined))"

definition arrow_call :: "('t, 'v) params \<Rightarrow> addr \<Rightarrow> ('t, 'v) machine \<Rightarrow> failure + ('t \<times> 'v)" where
  "arrow_call env this s = and_then (arrow env this s) (\<lambda>P. interface_call env P s)"

section \<open>Lifecycle\<close>

definition destroySelf :: "('t, 'v) params \<Rightarrow> addr \<Rightarrow> ('t, 'v) machine \<Rightarrow> failure + ('t, 'v) machine" where
  "destroySelf env this s =
     and_then (visit env destroy_at this s) (\<lambda>s1. Inr (set_id this 0 s1))"

definition erase :: "('t, 'v) params \<Rightarrow> addr \<Rightarrow> ('t, 'v) machine \<Rightarrow> failure + ('t, 'v) machine" where
  "erase env this s = destroySelf env this s"

text \<open>\<open>~Poly()\<close>.\<close>

definition Poly_dtor :: "('t, 'v) params \<Rightarrow> addr \<Rightarrow> ('t, 'v) machine \<Rightarrow> failure + ('t, 'v) machine" where
  "Poly_dtor env this s = destroySelf env this s"

text \<open>\<open>Poly() = default\<close>: the default member initialisers \<open>data_ {}\<close> and \<open>id_ = 0\<close>.\<close>

definition Poly_default :: "addr \<Rightarrow> ('t, 'v) machine \<Rightarrow> failure + ('t, 'v) machine" where
  "Poly_default this s = Inr (set_id this 0 (init_data this s))"

text \<open>
  \<open>visit_<T, Next...>\<close> contains the call of the callback with a \<open>T*\<close> for
  every \<open>T\<close> of \<open>Base, Derived...\<close>, whether or not that call is ever reached at
  run time. A generic lambda passed to \<open>visit\<close> is therefore instantiated at every
  type of the list, and the program is ill-formed when the body of the lambda is
  ill-formed at one of them.
\<close>

definition instantiated_for_all :: "('t \<Rightarrow> bool) \<Rightarrow> ('t, 'v) params \<Rightarrow> bool" where
  "instantiated_for_all well_formed env = list_all well_formed (Base env # Derived env)"

text \<open>
  \<open>Poly(const Poly& p)\<close>: members are initialised in declaration order, \<open>data_\<close>
  then \<open>id_(p.id_)\<close>; then the body visits \<open>p\<close>. The \<open>requires\<close> clause
  speaks of \<open>Derived...\<close> only. The lambda constructs only when \<open>T\<close> is not
  abstract (\<open>if constexpr\<close>), so its body \<open>new (...) T{*P}\<close> has to be
  well-formed at the types that are not abstract, \<open>Base\<close> among them: they have
  to be copy constructible. The same for \<open>Poly(Poly&& p)\<close>, which is
  \<open>noexcept\<close> and ends with \<open>p.destroySelf()\<close>.
\<close>

definition Poly_copy :: "('t, 'v) params \<Rightarrow> addr \<Rightarrow> addr \<Rightarrow> ('t, 'v) machine \<Rightarrow> failure + ('t, 'v) machine" where
  "Poly_copy env this p s =
     (if \<not> all_copyable env (Derived env) then Inl Rejected
      else if \<not> instantiated_for_all (\<lambda>T. is_abstract env T \<or> is_copy_constructible_v env T) env
        then Inl Rejected
      else
        let s0 = init_data this s;
            s1 = set_id this (id' (objs s0 p)) s0
        in visit_const env
             (\<lambda>P s. if \<not> is_abstract env (pointee P) then copy_from this P s else Inr s)
             p s1)"

definition Poly_move :: "('t, 'v) params \<Rightarrow> addr \<Rightarrow> addr \<Rightarrow> ('t, 'v) machine \<Rightarrow> failure + ('t, 'v) machine" where
  "Poly_move env this p s =
     (if \<not> all_movable env (Derived env) then Inl Rejected
      else if \<not> instantiated_for_all (\<lambda>T. is_abstract env T \<or> is_move_constructible_v env T) env
        then Inl Rejected
      else
        let s0 = init_data this s;
            s1 = set_id this (id' (objs s0 p)) s0
        in and_then
             (visit env
                (\<lambda>P s. if \<not> is_abstract env (pointee P) then move_from env this P s else Inr s)
                p s1)
             (\<lambda>s2. destroySelf env p s2))"

text \<open>
  \<open>Poly(const U& u)\<close> and \<open>Poly(U&& u)\<close>: the \<open>requires\<close> clause, the
  initialiser \<open>id_(ID<U>)\<close>, the \<open>static_assert\<close>, the placement new.
\<close>

definition Poly_from_copy :: "('t, 'v) params \<Rightarrow> addr \<Rightarrow> 't \<Rightarrow> 'v \<Rightarrow> ('t, 'v) machine \<Rightarrow> failure + ('t, 'v) machine" where
  "Poly_from_copy env this U u s =
     (if \<not> (matches_any U (Base env # Derived env) \<and> copyable env U) then Inl Rejected
      else if is_abstract env U then Inl Rejected
      else and_then (ID env U) (\<lambda>k.
             Inr (new_copy this U u (set_id this k (init_data this s)))))"

definition Poly_from_move :: "('t, 'v) params \<Rightarrow> addr \<Rightarrow> 't \<Rightarrow> 'v \<Rightarrow> ('t, 'v) machine \<Rightarrow> failure + ('t, 'v) machine" where
  "Poly_from_move env this U u s =
     (if \<not> (matches_any U (Base env # Derived env) \<and> movable env U) then Inl Rejected
      else if is_abstract env U then Inl Rejected
      else and_then (ID env U) (\<lambda>k.
             Inr (new_move this U u (set_id this k (init_data this s)))))"

text \<open>
  \<open>operator=(const Poly& p)\<close> and \<open>operator=(Poly&& p)\<close> are member
  templates (\<open>template <typename = void>\<close>). A member template is never the copy
  or the move assignment operator of its class, and the copy assignment operator
  that the class declares implicitly is deleted, because the class declares a move
  constructor. Moreover, to check the constraint \<open>H::copyable U\<close> or
  \<open>H::movable U\<close> of the value assignment templates for an argument that is a
  container, the compiler has to decide whether a container can be assigned from a
  container, which is the question it is answering. The expressions \<open>y = x\<close>
  and \<open>y = std::move(x)\<close> on two containers do not compile, for any
  instantiation of the class; the two templates are reached by a call that names
  them, \<open>y.operator=<void>(x)\<close> and \<open>y.operator=<void>(std::move(x))\<close>.
\<close>

datatype call_form = Expression | Named

text \<open>
  The bodies: \<open>destroySelf()\<close> first, then the tag is read from \<open>p\<close> as it is
  at that moment, then \<open>p\<close> is visited. The lambdas of the assignment operators
  have no \<open>if constexpr\<close>: their bodies \<open>new (...) T{*P}\<close> and
  \<open>new (...) T{std::move(*P)}\<close> have to be well-formed at every type of the list,
  so every type of the list, \<open>Base\<close> too, has to be copy (move) constructible,
  which an abstract class is not.
\<close>

definition assign_copy :: "('t, 'v) params \<Rightarrow> call_form \<Rightarrow> addr \<Rightarrow> addr \<Rightarrow> ('t, 'v) machine \<Rightarrow> failure + ('t, 'v) machine" where
  "assign_copy env form this p s =
     (if form = Expression then Inl Rejected
      else if \<not> all_copyable env (Derived env) then Inl Rejected
      else if \<not> instantiated_for_all (is_copy_constructible_v env) env then Inl Rejected
      else and_then (destroySelf env this s) (\<lambda>s1.
             let s2 = set_id this (id' (objs s1 p)) s1
             in visit_const env (copy_from this) p s2))"

definition assign_move :: "('t, 'v) params \<Rightarrow> call_form \<Rightarrow> addr \<Rightarrow> addr \<Rightarrow> ('t, 'v) machine \<Rightarrow> failure + ('t, 'v) machine" where
  "assign_move env form this p s =
     (if form = Expression then Inl Rejected
      else if \<not> all_movable env (Derived env) then Inl Rejected
      else if \<not> instantiated_for_all (is_move_constructible_v env) env then Inl Rejected
      else and_then (destroySelf env this s) (\<lambda>s1.
             let s2 = set_id this (id' (objs s1 p)) s1
             in and_then (visit env (move_from env this) p s2)
                  (\<lambda>s3. destroySelf env p s3)))"

text \<open>\<open>operator=(const U& u)\<close> and \<open>operator=(U&& u)\<close>.\<close>

definition assign_from_copy :: "('t, 'v) params \<Rightarrow> addr \<Rightarrow> 't \<Rightarrow> 'v \<Rightarrow> ('t, 'v) machine \<Rightarrow> failure + ('t, 'v) machine" where
  "assign_from_copy env this U u s =
     (if \<not> (copyable env U \<and> matches_any U (Base env # Derived env)) then Inl Rejected
      else and_then (destroySelf env this s) (\<lambda>s1.
             and_then (ID env U) (\<lambda>k.
               Inr (new_copy this U u (set_id this k s1)))))"

definition assign_from_move :: "('t, 'v) params \<Rightarrow> addr \<Rightarrow> 't \<Rightarrow> 'v \<Rightarrow> ('t, 'v) machine \<Rightarrow> failure + ('t, 'v) machine" where
  "assign_from_move env this U u s =
     (if \<not> (movable env U \<and> matches_any U (Base env # Derived env)) then Inl Rejected
      else and_then (destroySelf env this s) (\<lambda>s1.
             and_then (ID env U) (\<lambda>k.
               Inr (new_move this U u (set_id this k s1)))))"

text \<open>
  The first two statements of \<open>operator=(const U& u)\<close> and of
  \<open>operator=(U&& u)\<close>, \<open>destroySelf(); this->id_ = ID<U>;\<close>: the state in
  which the constructor of the new payload is entered. Neither the copy form of the
  operator nor the copy constructor of a payload is \<open>noexcept\<close>; when that
  constructor throws, this is the state the container is left in.
\<close>

definition reaches_new :: "('t, 'v) params \<Rightarrow> addr \<Rightarrow> 't \<Rightarrow> ('t, 'v) machine \<Rightarrow> failure + ('t, 'v) machine" where
  "reaches_new env this U s =
     and_then (destroySelf env this s) (\<lambda>s1.
       and_then (ID env U) (\<lambda>k. Inr (set_id this k s1)))"

section \<open>The example of the README\<close>

text \<open>
  \<open>MyPoly = efl::Poly<MyBase, Meower, Woofer>\<close>, with \<open>MyBase\<close> abstract and
  the first base class of \<open>Meower\<close> and of \<open>Woofer\<close>. The second parameter
  record makes \<open>MyBase\<close> a concrete class. In the third, \<open>Meower\<close> has
  another base class before \<open>MyBase\<close>, as in
  \<open>struct Meower : Other, MyBase\<close>, which \<open>std::derived_from<MyBase>\<close>
  accepts.
\<close>

datatype ty = MyBase | Meower | Woofer

definition MyPoly :: "(ty, nat) params" where
  "MyPoly = \<lparr>Base = MyBase, Derived = [Meower, Woofer],
     is_abstract = (\<lambda>T. T = MyBase),
     copy_ctor = (\<lambda>T. True), copy_assign = (\<lambda>T. True),
     move_ctor = (\<lambda>T. True), move_assign = (\<lambda>T. True),
     moved_from = (\<lambda>T v. v), base_offset = (\<lambda>T. 0)\<rparr>"

definition ConcretePoly :: "(ty, nat) params" where
  "ConcretePoly = MyPoly\<lparr>is_abstract := (\<lambda>T. False)\<rparr>"

definition SecondBasePoly :: "(ty, nat) params" where
  "SecondBasePoly = MyPoly\<lparr>base_offset := (\<lambda>T. if T = Meower then 8 else 0)\<rparr>"

text \<open>A store in which every object is empty and nothing has happened yet.\<close>

definition boot :: "(ty, nat) machine" where
  "boot = \<lparr>objs = (\<lambda>a. \<lparr>data' = None, id' = 0\<rparr>), trace = []\<rparr>"

text \<open>
  The container at address 0 holds the \<open>Meower\<close> 5; in the second store the
  container at address 1 holds the \<open>Woofer\<close> 6 as well.
\<close>

definition one_meower :: "(ty, nat) machine" where
  "one_meower = new_move 0 Meower 5 (set_id 0 2 boot)"

definition meower_and_woofer :: "(ty, nat) machine" where
  "meower_and_woofer = new_move 1 Woofer 6 (set_id 1 3 one_meower)"

section \<open>The invariant and the order of updates\<close>

text \<open>
  The invariant of one object: the tag is 0 exactly when nothing lives in the
  storage, and otherwise it is the tag of the type of the object that lives there.
  No object of an abstract type ever lives anywhere.
\<close>

definition Poly_inv :: "('t, 'v) params \<Rightarrow> ('t, 'v) Poly \<Rightarrow> bool" where
  "Poly_inv env P =
     (case data' P of
        None \<Rightarrow> id' P = 0
      | Some (T, v) \<Rightarrow> ID env T = Inr (id' P) \<and> \<not> is_abstract env T)"

text \<open>
  The events of the three dispatched steps, as they depend on what the visited
  object holds: \<open>destroySelf\<close> of \<open>a\<close>, the copy of the payload of \<open>p\<close>
  into \<open>this\<close>, and the move of the payload of \<open>p\<close> into \<open>this\<close> followed
  by \<open>p.destroySelf()\<close>.
\<close>

definition destroy_events :: "addr \<Rightarrow> ('t, 'v) machine \<Rightarrow> ('t, 'v) event list" where
  "destroy_events a s =
     (case data' (objs s a) of
        None \<Rightarrow> [SetTag a 0]
      | Some (T, v) \<Rightarrow> [Destroy a T v, SetTag a 0])"

definition copy_events :: "addr \<Rightarrow> addr \<Rightarrow> ('t, 'v) machine \<Rightarrow> ('t, 'v) event list" where
  "copy_events this p s =
     (case data' (objs s p) of
        None \<Rightarrow> []
      | Some (T, v) \<Rightarrow> [CopyConstruct this T v])"

definition move_events :: "('t, 'v) params \<Rightarrow> addr \<Rightarrow> addr \<Rightarrow> ('t, 'v) machine \<Rightarrow> ('t, 'v) event list" where
  "move_events env this p s =
     (case data' (objs s p) of
        None \<Rightarrow> [SetTag p 0]
      | Some (T, v) \<Rightarrow>
          [MoveConstruct this T v, Destroy p T (moved_from env T v), SetTag p 0])"

text \<open>What a trace is replayed against: the tags and the types of the live payloads.\<close>

definition tags :: "('t, 'v) machine \<Rightarrow> addr \<Rightarrow> nat" where
  "tags s a = id' (objs s a)"

definition payloads :: "('t, 'v) machine \<Rightarrow> addr \<Rightarrow> 't option" where
  "payloads s a = map_option fst (data' (objs s a))"

text \<open>
  Tag first: whenever a payload is constructed in a storage, the tag of that object
  already is the tag of the payload's type.
\<close>

fun tag_then_construct :: "('t, 'v) params \<Rightarrow> (addr \<Rightarrow> nat) \<Rightarrow> ('t, 'v) event list \<Rightarrow> bool" where
  "tag_then_construct env tg [] = True"
| "tag_then_construct env tg (SetTag a k # es) = tag_then_construct env (tg(a := k)) es"
| "tag_then_construct env tg (CopyConstruct a T v # es) =
     (ID env T = Inr (tg a) \<and> tag_then_construct env tg es)"
| "tag_then_construct env tg (MoveConstruct a T v # es) =
     (ID env T = Inr (tg a) \<and> tag_then_construct env tg es)"
| "tag_then_construct env tg (e # es) = tag_then_construct env tg es"

text \<open>
  Payload first: whenever a nonzero tag is written, a payload of the type with that
  tag already lives in the storage of that object.
\<close>

fun construct_then_tag :: "('t, 'v) params \<Rightarrow> (addr \<Rightarrow> 't option) \<Rightarrow> ('t, 'v) event list \<Rightarrow> bool" where
  "construct_then_tag env lv [] = True"
| "construct_then_tag env lv (SetTag a k # es) =
     ((k = 0 \<or> (case lv a of None \<Rightarrow> False | Some T \<Rightarrow> ID env T = Inr k))
      \<and> construct_then_tag env lv es)"
| "construct_then_tag env lv (CopyConstruct a T v # es) = construct_then_tag env (lv(a := Some T)) es"
| "construct_then_tag env lv (MoveConstruct a T v # es) = construct_then_tag env (lv(a := Some T)) es"
| "construct_then_tag env lv (Destroy a T v # es) = construct_then_tag env (lv(a := None)) es"
| "construct_then_tag env lv (InitData a # es) = construct_then_tag env (lv(a := None)) es"
| "construct_then_tag env lv (Call P # es) = construct_then_tag env lv es"

section \<open>Observation\<close>

text \<open>A callback that only records that it was called, and with which pointer.\<close>

definition log_call :: "('t, 'v) callback" where
  "log_call P s = Inr (s\<lparr>trace := trace s @ [Call P]\<rparr>)"

text \<open>Observing the outcome of an operation.\<close>

definition object_after :: "failure + ('t, 'v) machine \<Rightarrow> addr \<Rightarrow> failure + ('t, 'v) Poly" where
  "object_after r a = and_then r (\<lambda>s. Inr (objs s a))"

definition events_after :: "failure + ('t, 'v) machine \<Rightarrow> ('t, 'v) event list" where
  "events_after r = (case r of Inl e \<Rightarrow> [] | Inr s \<Rightarrow> trace s)"

section \<open>Properties of the registry\<close>

lemma and_then_Inr [simp]: "and_then (Inr x) f = f x"
  by (simp add: and_then_def)

lemma and_then_Inl [simp]: "and_then (Inl e) f = Inl e"
  by (simp add: and_then_def)

lemma foldl_or_mem: "foldl (\<lambda>b U. b \<or> T = U) b0 UU = (b0 \<or> T \<in> set UU)"
  by (induction UU arbitrary: b0) auto

lemma matches_any_iff: "matches_any T UU = (T \<in> set UU)"
  by (simp add: matches_any_def foldl_or_mem)

lemma filter_key_singleton:
  "distinct (map f xs) \<Longrightarrow> x \<in> set xs \<Longrightarrow> filter (\<lambda>y. f y = f x) xs = [x]"
proof (induction xs)
  case Nil
  then show ?case by simp
next
  case (Cons a xs)
  show ?case
  proof (cases "a = x")
    case True
    from Cons.prems have "\<forall>y\<in>set xs. f y \<noteq> f x" using True by (auto simp: image_iff)
    then have "filter (\<lambda>y. f y = f x) xs = []" by (simp add: filter_empty_conv)
    with True show ?thesis by simp
  next
    case False
    with Cons.prems have mem: "x \<in> set xs" and d: "distinct (map f xs)" by auto
    from Cons.prems mem have "f a \<noteq> f x" by (auto simp: image_iff)
    with Cons.IH [OF d mem] show ?thesis by simp
  qed
qed

lemma length_IPolyBase [simp]: "length (IPolyBase TT) = length TT"
  by (simp add: IPolyBase_def IPoly_def)

lemma nth_IPolyBase: "i < length TT \<Longrightarrow> IPolyBase TT ! i = PolyNode (TT ! i) i"
  by (simp add: IPolyBase_def IPoly_def)

lemma map_Type_IPolyBase: "map Type (IPolyBase TT) = TT"
  by (rule nth_equalityI) (simp_all add: nth_IPolyBase)

lemma map_value_IPolyBase: "map value' (IPolyBase TT) = [0..<length TT]"
  by (rule nth_equalityI) (simp_all add: nth_IPolyBase)

lemma node_in_IPolyBase: "i < length TT \<Longrightarrow> PolyNode (TT ! i) i \<in> set (IPolyBase TT)"
  by (metis length_IPolyBase nth_IPolyBase nth_mem)

lemma IGetID_nth:
  assumes "distinct TT" and "i < length TT"
  shows "IGetID (IPolyBase TT) (TT ! i) = Inr (Suc i)"
proof -
  have "distinct (map Type (IPolyBase TT))" using assms(1) by (simp add: map_Type_IPolyBase)
  from filter_key_singleton [OF this node_in_IPolyBase [OF assms(2)]]
  show ?thesis by (simp add: IGetID_def)
qed

lemma IGetTy_nth:
  assumes "i < length TT"
  shows "IGetTy (IPolyBase TT) (Suc i) = Inr (TT ! i)"
proof -
  have "distinct (map value' (IPolyBase TT))" by (simp add: map_value_IPolyBase)
  from filter_key_singleton [OF this node_in_IPolyBase [OF assms]]
  show ?thesis by (simp add: IGetTy_def)
qed

lemma resolve_Inr: "resolve xs = Inr x \<Longrightarrow> xs = [x]"
  by (cases xs rule: resolve.cases) auto

lemma IGetID_member:
  assumes "IGetID nodes U = Inr k"
  shows "U \<in> Type ` set nodes"
proof -
  from assms obtain n where "resolve (filter (\<lambda>n. Type n = U) nodes) = Inr n"
    by (cases "resolve (filter (\<lambda>n. Type n = U) nodes)") (auto simp: IGetID_def)
  then have "filter (\<lambda>n. Type n = U) nodes = [n]" by (rule resolve_Inr)
  then have "n \<in> set (filter (\<lambda>n. Type n = U) nodes)" by simp
  then show ?thesis by auto
qed

lemma ID_member: "ID env T = Inr k \<Longrightarrow> T \<in> set (Base env # Derived env)"
  using IGetID_member [of "BaseType env" T k]
  by (simp add: ID_def GetID_def BaseType_def map_Type_IPolyBase flip: set_map)

lemma ID_nth:
  "distinct (Base env # Derived env) \<Longrightarrow> i < Suc (length (Derived env)) \<Longrightarrow>
   ID env ((Base env # Derived env) ! i) = Inr (Suc i)"
  using IGetID_nth [of "Base env # Derived env" i]
  by (simp add: ID_def GetID_def BaseType_def)

lemma ID_total:
  assumes "distinct (Base env # Derived env)" and "T \<in> set (Base env # Derived env)"
  shows "\<exists>i < Suc (length (Derived env)). (Base env # Derived env) ! i = T \<and> ID env T = Inr (Suc i)"
proof -
  from assms(2) obtain i where "i < length (Base env # Derived env)" "(Base env # Derived env) ! i = T"
    by (meson in_set_conv_nth)
  with ID_nth [OF assms(1), of i] show ?thesis by auto
qed

lemma ID_inj:
  assumes "distinct (Base env # Derived env)" and "ID env T = Inr k" and "ID env U = Inr k"
  shows "T = U"
proof -
  from ID_total [OF assms(1) ID_member [OF assms(2)]] assms(2)
  obtain i where i: "(Base env # Derived env) ! i = T" "k = Suc i" by auto
  from ID_total [OF assms(1) ID_member [OF assms(3)]] assms(3)
  obtain j where j: "(Base env # Derived env) ! j = U" "k = Suc j" by auto
  from i j show ?thesis by simp
qed

lemma ID_pos: "distinct (Base env # Derived env) \<Longrightarrow> ID env T = Inr k \<Longrightarrow> 0 < k \<and> k \<le> Size env"
  using ID_total [OF _ ID_member, of env T k] by (auto simp: Size_def)

section \<open>What each operation does\<close>

lemma visit_const'_eq: "visit_const' env Ts F this s = visit' env Ts F this s"
  by (induction Ts) (simp_all add: and_then_def split: sum.splits)

lemma visit_const_eq: "visit_const env F this s = visit env F this s"
  by (simp add: visit_const_def visit_def visit_const'_eq)

lemma visit'_hit:
  assumes d: "distinct (Base env # Derived env)"
    and tag: "ID env T = Inr (id' (objs s this))"
  shows "set Ts \<subseteq> set (Base env # Derived env) \<Longrightarrow> T \<in> set Ts \<Longrightarrow>
         visit' env Ts F this s = F (launder_cast T (getPtr env this s)) s"
proof (induction Ts)
  case Nil
  then show ?case by simp
next
  case (Cons U Next)
  from Cons.prems(1) have "U \<in> set (Base env # Derived env)" by simp
  from ID_total [OF d this] obtain i where U: "ID env U = Inr (Suc i)" by blast
  show ?case
  proof (cases "Suc i = id' (objs s this)")
    case True
    with U tag have "U = T" using ID_inj [OF d] by metis
    with U True show ?thesis by simp
  next
    case False
    with U tag have "U \<noteq> T" by auto
    with Cons.prems have "T \<in> set Next" "set Next \<subseteq> set (Base env # Derived env)" by auto
    with Cons.IH U False show ?thesis by simp
  qed
qed

lemma visit_empty: "isEmpty this s \<Longrightarrow> visit env F this s = Inr s"
  by (simp add: visit_def)

lemma Poly_inv_holding:
  assumes "distinct (Base env # Derived env)" and "Poly_inv env P" and "data' P = Some (T, v)"
  shows "ID env T = Inr (id' P)" and "id' P \<noteq> 0" and "\<not> is_abstract env T"
    and "T \<in> set (Base env # Derived env)"
proof -
  from assms(2,3) show t: "ID env T = Inr (id' P)" and "\<not> is_abstract env T"
    by (simp_all add: Poly_inv_def)
  from ID_pos [OF assms(1) t] show "id' P \<noteq> 0" by simp
  from ID_member [OF t] show "T \<in> set (Base env # Derived env)" .
qed

lemma Poly_inv_empty: "Poly_inv env P \<Longrightarrow> data' P = None \<Longrightarrow> id' P = 0"
  by (simp add: Poly_inv_def)

lemma visit_holding:
  assumes d: "distinct (Base env # Derived env)"
    and inv: "Poly_inv env (objs s this)"
    and h: "data' (objs s this) = Some (T, v)"
  shows "visit env F this s = F (Pointer T (Some this)) s"
proof -
  note f = Poly_inv_holding [OF d inv h]
  have "visit' env (Base env # Derived env) F this s = F (launder_cast T (getPtr env this s)) s"
    using visit'_hit [OF d f(1) subset_refl f(4)] .
  with f(2) show ?thesis
    by (simp add: visit_def isEmpty_def launder_cast_def getPtr_def)
qed

lemma objs_set_id [simp]: "objs (set_id a k s) = (objs s)(a := (objs s a)\<lparr>id' := k\<rparr>)"
  and trace_set_id [simp]: "trace (set_id a k s) = trace s @ [SetTag a k]"
  by (simp_all add: set_id_def)

lemma objs_init_data [simp]: "objs (init_data a s) = (objs s)(a := (objs s a)\<lparr>data' := None\<rparr>)"
  and trace_init_data [simp]: "trace (init_data a s) = trace s @ [InitData a]"
  by (simp_all add: init_data_def)

lemma objs_new_copy [simp]: "objs (new_copy a T v s) = (objs s)(a := (objs s a)\<lparr>data' := Some (T, v)\<rparr>)"
  and trace_new_copy [simp]: "trace (new_copy a T v s) = trace s @ [CopyConstruct a T v]"
  by (simp_all add: new_copy_def)

lemma objs_new_move [simp]: "objs (new_move a T v s) = (objs s)(a := (objs s a)\<lparr>data' := Some (T, v)\<rparr>)"
  and trace_new_move [simp]: "trace (new_move a T v s) = trace s @ [MoveConstruct a T v]"
  by (simp_all add: new_move_def)

lemma objs_destroyed [simp]: "objs (destroyed a T v s) = (objs s)(a := (objs s a)\<lparr>data' := None\<rparr>)"
  and trace_destroyed [simp]: "trace (destroyed a T v s) = trace s @ [Destroy a T v]"
  by (simp_all add: destroyed_def)

lemma objs_leave_moved [simp]:
  "objs (leave_moved env (Pointer T (Some a)) v s)
     = (objs s)(a := (objs s a)\<lparr>data' := Some (T, moved_from env T v)\<rparr>)"
  and trace_leave_moved [simp]: "trace (leave_moved env P v s) = trace s"
  by (simp_all add: leave_moved_def split: option.splits)

lemma deref_holding:
  "data' (objs s a) = Some (T, v) \<Longrightarrow> deref (Pointer T (Some a)) s = Inr v"
  by (simp add: deref_def)

lemma destroySelf_holding:
  assumes "distinct (Base env # Derived env)" and "Poly_inv env (objs s this)"
    and "data' (objs s this) = Some (T, v)"
  shows "destroySelf env this s = Inr (set_id this 0 (destroyed this T v s))"
  using assms by (simp add: destroySelf_def visit_holding destroy_at_def deref_holding)

lemma destroySelf_empty:
  assumes "Poly_inv env (objs s this)" and "data' (objs s this) = None"
  shows "destroySelf env this s = Inr (set_id this 0 s)"
  using assms by (simp add: destroySelf_def visit_empty isEmpty_def Poly_inv_empty)

lemma Poly_copy_holding:
  assumes d: "distinct (Base env # Derived env)" and c: "all_copyable env (Derived env)"
    and g: "instantiated_for_all (\<lambda>T. is_abstract env T \<or> is_copy_constructible_v env T) env"
    and ne: "this \<noteq> p" and inv: "Poly_inv env (objs s p)"
    and h: "data' (objs s p) = Some (T, v)"
  shows "Poly_copy env this p s
           = Inr (new_copy this T v (set_id this (id' (objs s p)) (init_data this s)))"
proof -
  let ?s1 = "set_id this (id' (objs s p)) (init_data this s)"
  from ne have p1: "objs ?s1 p = objs s p" by simp
  note f = Poly_inv_holding [OF d inv h]
  have "visit env (\<lambda>P s. if \<not> is_abstract env (pointee P) then copy_from this P s else Inr s) p ?s1
          = Inr (new_copy this T v ?s1)"
    using f(3) inv h p1 by (simp add: visit_holding [OF d] copy_from_def deref_holding)
  with c g ne show ?thesis by (simp add: Poly_copy_def visit_const_eq Let_def)
qed

lemma Poly_copy_empty:
  assumes c: "all_copyable env (Derived env)"
    and g: "instantiated_for_all (\<lambda>T. is_abstract env T \<or> is_copy_constructible_v env T) env"
    and ne: "this \<noteq> p" and inv: "Poly_inv env (objs s p)"
    and h: "data' (objs s p) = None"
  shows "Poly_copy env this p s = Inr (set_id this 0 (init_data this s))"
  using assms Poly_inv_empty [OF inv h]
  by (simp add: Poly_copy_def visit_const_eq Let_def visit_empty isEmpty_def)


lemma Poly_eq_iff: "(P = Q) = (data' P = data' Q \<and> id' P = id' Q)"
  for P Q :: "('t, 'v) Poly"
  by (cases P, cases Q) auto

lemma machine_eq_iff: "(s = t) = (objs s = objs t \<and> trace s = trace t)"
  for s t :: "('t, 'v) machine"
  by (cases s, cases t) auto

lemmas state_eq = machine_eq_iff fun_eq_iff Poly_eq_iff

lemma destroySelf_result:
  assumes "distinct (Base env # Derived env)" and "Poly_inv env (objs s this)"
  shows "destroySelf env this s
           = Inr (s\<lparr>objs := (objs s)(this := \<lparr>data' = None, id' = 0\<rparr>),
                    trace := trace s @ destroy_events this s\<rparr>)"
proof (cases "data' (objs s this)")
  case None
  with assms show ?thesis
    by (simp add: destroySelf_empty set_id_def destroy_events_def state_eq)
next
  case (Some x)
  obtain T v where "x = (T, v)" by (cases x)
  with Some assms show ?thesis
    by (simp add: destroySelf_holding set_id_def destroyed_def destroy_events_def state_eq)
qed

lemma Poly_copy_result:
  assumes d: "distinct (Base env # Derived env)" and c: "all_copyable env (Derived env)"
    and g: "instantiated_for_all (\<lambda>T. is_abstract env T \<or> is_copy_constructible_v env T) env"
    and ne: "this \<noteq> p" and inv: "Poly_inv env (objs s p)"
  shows "Poly_copy env this p s
           = Inr (s\<lparr>objs := (objs s)(this := objs s p),
                    trace := trace s @ [InitData this, SetTag this (id' (objs s p))]
                               @ copy_events this p s\<rparr>)"
proof (cases "data' (objs s p)")
  case None
  with assms Poly_inv_empty [OF inv None] show ?thesis
    by (simp add: Poly_copy_empty set_id_def init_data_def copy_events_def state_eq)
next
  case (Some x)
  obtain T v where "x = (T, v)" by (cases x)
  with Some assms show ?thesis
    by (simp add: Poly_copy_holding set_id_def init_data_def new_copy_def copy_events_def state_eq)
qed


lemma Poly_inv_moved:
  "Poly_inv env P \<Longrightarrow> data' P = Some (T, v) \<Longrightarrow> Poly_inv env (P\<lparr>data' := Some (T, w)\<rparr>)"
  by (simp add: Poly_inv_def)

lemma move_step_result:
  assumes d: "distinct (Base env # Derived env)"
    and ne: "this \<noteq> p" and inv: "Poly_inv env (objs s p)"
  shows "and_then (visit env (move_from env this) p s) (destroySelf env p)
           = Inr (s\<lparr>objs := (objs s)(this := (objs s this)\<lparr>data' :=
                              (case data' (objs s p) of None \<Rightarrow> data' (objs s this) | Some x \<Rightarrow> Some x)\<rparr>,
                            p := \<lparr>data' = None, id' = 0\<rparr>),
                    trace := trace s @ move_events env this p s\<rparr>)"
proof (cases "data' (objs s p)")
  case None
  from Poly_inv_empty [OF inv None] have "visit env (move_from env this) p s = Inr s"
    by (simp add: visit_empty isEmpty_def)
  with None ne show ?thesis
    by (simp add: destroySelf_result [OF d inv] destroy_events_def move_events_def state_eq)
next
  case (Some x)
  obtain T v where x: "x = (T, v)" by (cases x)
  let ?s2 = "new_move this T v (leave_moved env (Pointer T (Some p)) v s)"
  from Some x have v: "visit env (move_from env this) p s = Inr ?s2"
    by (simp add: visit_holding [OF d inv] move_from_def deref_holding)
  from ne have o: "objs ?s2 p = (objs s p)\<lparr>data' := Some (T, moved_from env T v)\<rparr>" by simp
  from Some x inv have "Poly_inv env (objs ?s2 p)"
    unfolding o by (simp add: Poly_inv_moved)
  from destroySelf_result [OF d this] v Some x ne show ?thesis
    by (simp add: destroy_events_def move_events_def state_eq)
qed

lemma copy_step_result:
  assumes d: "distinct (Base env # Derived env)" and inv: "Poly_inv env (objs s p)"
  shows "visit_const env (copy_from this) p s
           = Inr (s\<lparr>objs := (objs s)(this := (objs s this)\<lparr>data' :=
                              (case data' (objs s p) of None \<Rightarrow> data' (objs s this) | Some x \<Rightarrow> Some x)\<rparr>),
                    trace := trace s @ copy_events this p s\<rparr>)"
proof (cases "data' (objs s p)")
  case None
  from Poly_inv_empty [OF inv None] have "visit env (copy_from this) p s = Inr s"
    by (simp add: visit_empty isEmpty_def)
  with None show ?thesis
    by (simp add: visit_const_eq copy_events_def state_eq)
next
  case (Some x)
  obtain T v where x: "x = (T, v)" by (cases x)
  from Some x show ?thesis
    by (simp add: visit_const_eq visit_holding [OF d inv] copy_from_def deref_holding
        copy_events_def new_copy_def state_eq)
qed

lemma Poly_move_result:
  assumes d: "distinct (Base env # Derived env)" and m: "all_movable env (Derived env)"
    and g: "instantiated_for_all (\<lambda>T. is_abstract env T \<or> is_move_constructible_v env T) env"
    and ne: "this \<noteq> p" and inv: "Poly_inv env (objs s p)"
  shows "Poly_move env this p s
           = Inr (s\<lparr>objs := (objs s)(this := objs s p, p := \<lparr>data' = None, id' = 0\<rparr>),
                    trace := trace s @ [InitData this, SetTag this (id' (objs s p))]
                               @ move_events env this p s\<rparr>)"
proof -
  let ?s1 = "set_id this (id' (objs s p)) (init_data this s)"
  from ne have o: "objs ?s1 p = objs s p" by simp
  have i1: "Poly_inv env (objs ?s1 p)" unfolding o by (rule inv)
  have "visit env (\<lambda>P s. if \<not> is_abstract env (pointee P) then move_from env this P s else Inr s) p ?s1
      = visit env (move_from env this) p ?s1"
  proof (cases "data' (objs s p)")
    case None
    from Poly_inv_empty [OF inv None] o show ?thesis by (simp add: visit_empty isEmpty_def)
  next
    case (Some x)
    obtain T v where x: "x = (T, v)" by (cases x)
    from Some x o have h: "data' (objs ?s1 p) = Some (T, v)" by simp
    from Poly_inv_holding(3) [OF d inv] Some x have "\<not> is_abstract env T" by simp
    then show ?thesis by (simp add: visit_holding [OF d i1 h])
  qed
  with m g move_step_result [OF d ne i1] Poly_inv_empty [OF inv] ne show ?thesis
    by (simp add: Poly_move_def Let_def move_events_def state_eq split: option.splits)
qed

lemma assign_copy_result:
  assumes d: "distinct (Base env # Derived env)" and c: "all_copyable env (Derived env)"
    and g: "instantiated_for_all (is_copy_constructible_v env) env"
    and ne: "this \<noteq> p" and invt: "Poly_inv env (objs s this)" and inv: "Poly_inv env (objs s p)"
  shows "assign_copy env Named this p s
           = Inr (s\<lparr>objs := (objs s)(this := objs s p),
                    trace := trace s @ destroy_events this s @ [SetTag this (id' (objs s p))]
                               @ copy_events this p s\<rparr>)"
proof -
  let ?s1 = "s\<lparr>objs := (objs s)(this := \<lparr>data' = None, id' = 0\<rparr>),
                trace := trace s @ destroy_events this s\<rparr>"
  let ?s2 = "set_id this (id' (objs ?s1 p)) ?s1"
  from ne have o: "objs ?s2 p = objs s p" by simp
  have i2: "Poly_inv env (objs ?s2 p)" unfolding o by (rule inv)
  from c g copy_step_result [OF d i2, of this] Poly_inv_empty [OF inv] ne show ?thesis
    by (simp add: assign_copy_def destroySelf_result [OF d invt] Let_def copy_events_def state_eq
        split: option.splits)
qed

lemma assign_copy_self_result:
  assumes d: "distinct (Base env # Derived env)" and c: "all_copyable env (Derived env)"
    and g: "instantiated_for_all (is_copy_constructible_v env) env"
    and inv: "Poly_inv env (objs s x)"
  shows "assign_copy env Named x x s
           = Inr (s\<lparr>objs := (objs s)(x := \<lparr>data' = None, id' = 0\<rparr>),
                    trace := trace s @ destroy_events x s @ [SetTag x 0]\<rparr>)"
  using c g
  by (simp add: assign_copy_def destroySelf_result [OF d inv] Let_def visit_const_eq visit_empty
      isEmpty_def set_id_def state_eq)

lemma assign_move_result:
  assumes d: "distinct (Base env # Derived env)" and m: "all_movable env (Derived env)"
    and g: "instantiated_for_all (is_move_constructible_v env) env"
    and ne: "this \<noteq> p" and invt: "Poly_inv env (objs s this)" and inv: "Poly_inv env (objs s p)"
  shows "assign_move env Named this p s
           = Inr (s\<lparr>objs := (objs s)(this := objs s p, p := \<lparr>data' = None, id' = 0\<rparr>),
                    trace := trace s @ destroy_events this s @ [SetTag this (id' (objs s p))]
                               @ move_events env this p s\<rparr>)"
proof -
  let ?s1 = "s\<lparr>objs := (objs s)(this := \<lparr>data' = None, id' = 0\<rparr>),
                trace := trace s @ destroy_events this s\<rparr>"
  let ?s2 = "set_id this (id' (objs ?s1 p)) ?s1"
  from ne have o: "objs ?s2 p = objs s p" by simp
  have i2: "Poly_inv env (objs ?s2 p)" unfolding o by (rule inv)
  from m g move_step_result [OF d ne i2] Poly_inv_empty [OF inv] ne show ?thesis
    by (simp add: assign_move_def destroySelf_result [OF d invt] Let_def move_events_def state_eq
        split: option.splits)
qed

lemma assign_move_self_result:
  assumes d: "distinct (Base env # Derived env)" and m: "all_movable env (Derived env)"
    and g: "instantiated_for_all (is_move_constructible_v env) env"
    and inv: "Poly_inv env (objs s x)"
  shows "assign_move env Named x x s
           = Inr (s\<lparr>objs := (objs s)(x := \<lparr>data' = None, id' = 0\<rparr>),
                    trace := trace s @ destroy_events x s @ [SetTag x 0, SetTag x 0]\<rparr>)"
proof -
  let ?s1 = "s\<lparr>objs := (objs s)(x := \<lparr>data' = None, id' = 0\<rparr>),
                trace := trace s @ destroy_events x s\<rparr>"
  let ?s2 = "set_id x 0 ?s1"
  have s1: "destroySelf env x s = Inr ?s1" by (rule destroySelf_result [OF d inv])
  have t: "id' (objs ?s1 x) = 0" by simp
  have v: "visit env (move_from env x) x ?s2 = Inr ?s2"
    by (rule visit_empty) (simp add: isEmpty_def)
  have i2: "Poly_inv env (objs ?s2 x)" by (simp add: Poly_inv_def)
  have s3: "destroySelf env x ?s2
              = Inr (s\<lparr>objs := (objs s)(x := \<lparr>data' = None, id' = 0\<rparr>),
                       trace := trace s @ destroy_events x s @ [SetTag x 0, SetTag x 0]\<rparr>)"
    unfolding destroySelf_result [OF d i2] by (simp add: destroy_events_def state_eq)
  have "assign_move env Named x x s = and_then (visit env (move_from env x) x ?s2) (destroySelf env x)"
    using m g by (simp add: assign_move_def s1 Let_def del: objs_set_id)
  then show ?thesis by (simp only: v s3 and_then_Inr)
qed


lemma copyable_concrete: "copyable env U \<Longrightarrow> \<not> is_abstract env U"
  by (simp add: copyable_def is_copy_constructible_v_def)

lemma movable_concrete: "movable env U \<Longrightarrow> \<not> is_abstract env U"
  by (simp add: movable_def is_move_constructible_v_def)

lemma Poly_from_copy_result:
  assumes "ID env U = Inr k" and "copyable env U"
  shows "Poly_from_copy env this U u s
           = Inr (s\<lparr>objs := (objs s)(this := \<lparr>data' = Some (U, u), id' = k\<rparr>),
                    trace := trace s @ [InitData this, SetTag this k, CopyConstruct this U u]\<rparr>)"
  using assms ID_member [OF assms(1)] copyable_concrete [OF assms(2)]
  by (simp add: Poly_from_copy_def matches_any_iff new_copy_def set_id_def init_data_def state_eq)

lemma Poly_from_move_result:
  assumes "ID env U = Inr k" and "movable env U"
  shows "Poly_from_move env this U u s
           = Inr (s\<lparr>objs := (objs s)(this := \<lparr>data' = Some (U, u), id' = k\<rparr>),
                    trace := trace s @ [InitData this, SetTag this k, MoveConstruct this U u]\<rparr>)"
  using assms ID_member [OF assms(1)] movable_concrete [OF assms(2)]
  by (simp add: Poly_from_move_def matches_any_iff new_move_def set_id_def init_data_def state_eq)

lemma assign_from_copy_result:
  assumes d: "distinct (Base env # Derived env)" and inv: "Poly_inv env (objs s this)"
    and k: "ID env U = Inr k" and c: "copyable env U"
  shows "assign_from_copy env this U u s
           = Inr (s\<lparr>objs := (objs s)(this := \<lparr>data' = Some (U, u), id' = k\<rparr>),
                    trace := trace s @ destroy_events this s
                               @ [SetTag this k, CopyConstruct this U u]\<rparr>)"
  using k c ID_member [OF k]
  by (simp add: assign_from_copy_def matches_any_iff destroySelf_result [OF d inv]
      new_copy_def set_id_def state_eq)

lemma assign_from_move_result:
  assumes d: "distinct (Base env # Derived env)" and inv: "Poly_inv env (objs s this)"
    and k: "ID env U = Inr k" and c: "movable env U"
  shows "assign_from_move env this U u s
           = Inr (s\<lparr>objs := (objs s)(this := \<lparr>data' = Some (U, u), id' = k\<rparr>),
                    trace := trace s @ destroy_events this s
                               @ [SetTag this k, MoveConstruct this U u]\<rparr>)"
  using k c ID_member [OF k]
  by (simp add: assign_from_move_def matches_any_iff destroySelf_result [OF d inv]
      new_move_def set_id_def state_eq)

lemma Poly_default_result:
  "Poly_default this s
     = Inr (s\<lparr>objs := (objs s)(this := \<lparr>data' = None, id' = 0\<rparr>),
              trace := trace s @ [InitData this, SetTag this 0]\<rparr>)"
  by (simp add: Poly_default_def set_id_def init_data_def state_eq)

lemma holdsType_iff:
  assumes "ID env T = Inr k"
  shows "holdsType env T this s = Inr (id' (objs s this) = k)"
  using assms ID_member [OF assms] by (simp add: holdsType_def matches_any_iff)

lemma assign_from_copy_by_steps:
  "assign_from_copy env this U u s =
     (if \<not> (copyable env U \<and> matches_any U (Base env # Derived env)) then Inl Rejected
      else and_then (reaches_new env this U s) (\<lambda>s2. Inr (new_copy this U u s2)))"
  by (simp add: assign_from_copy_def reaches_new_def and_then_def split: sum.splits)

text \<open>Where the operations between two containers are refused.\<close>

lemma assignment_expression_rejected:
  "assign_copy env Expression this p s = Inl Rejected"
  "assign_move env Expression this p s = Inl Rejected"
  by (simp_all add: assign_copy_def assign_move_def)

lemma abstract_not_constructible:
  "is_abstract env T \<Longrightarrow> \<not> is_copy_constructible_v env T"
  "is_abstract env T \<Longrightarrow> \<not> is_move_constructible_v env T"
  by (simp_all add: is_copy_constructible_v_def is_move_constructible_v_def)

lemma assignment_abstract_Base_rejected:
  assumes "is_abstract env (Base env)"
  shows "assign_copy env form this p s = Inl Rejected"
    and "assign_move env form this p s = Inl Rejected"
  using assms
  by (simp_all add: assign_copy_def assign_move_def instantiated_for_all_def
      abstract_not_constructible)

lemma constructor_concrete_Base_rejected:
  assumes "\<not> is_abstract env (Base env)"
  shows "\<not> copy_ctor env (Base env) \<Longrightarrow> Poly_copy env this p s = Inl Rejected"
    and "\<not> move_ctor env (Base env) \<Longrightarrow> Poly_move env this p s = Inl Rejected"
  using assms
  by (simp_all add: Poly_copy_def Poly_move_def instantiated_for_all_def
      is_copy_constructible_v_def is_move_constructible_v_def)

lemma Poly_inv_tag_nonzero:
  assumes "distinct (Base env # Derived env)" and "Poly_inv env P"
  shows "(id' P \<noteq> 0) = (\<exists>T v. data' P = Some (T, v) \<and> ID env T = Inr (id' P))"
proof (cases "data' P")
  case None
  with assms(2) show ?thesis by (simp add: Poly_inv_def)
next
  case (Some x)
  obtain T v where "x = (T, v)" by (cases x)
  with Some Poly_inv_holding(1,2) [OF assms, of T v] show ?thesis by simp
qed

lemma Poly_inv_empty_object [simp]: "Poly_inv env \<lparr>data' = None, id' = 0\<rparr>"
  by (simp add: Poly_inv_def)

section \<open>Facts about the example instantiations\<close>

lemma ID_MyPoly:
  "ID MyPoly MyBase = Inr 1" "ID MyPoly Meower = Inr 2" "ID MyPoly Woofer = Inr 3"
  by (simp_all add: ID_def GetID_def IGetID_def BaseType_def IPolyBase_def IPoly_def MyPoly_def
      upt_rec)

lemma ID_ConcretePoly:
  "ID ConcretePoly MyBase = Inr 1" "ID ConcretePoly Meower = Inr 2" "ID ConcretePoly Woofer = Inr 3"
  by (simp_all add: ID_def GetID_def IGetID_def BaseType_def IPolyBase_def IPoly_def MyPoly_def
      ConcretePoly_def upt_rec)

lemma list_MyPoly: "Base MyPoly = MyBase" "Derived MyPoly = [Meower, Woofer]"
  by (simp_all add: MyPoly_def)

lemma distinct_MyPoly: "distinct (Base MyPoly # Derived MyPoly)"
  by (simp add: MyPoly_def)

lemma distinct_ConcretePoly: "distinct (Base ConcretePoly # Derived ConcretePoly)"
  by (simp add: ConcretePoly_def MyPoly_def)

lemma traits_MyPoly:
  "all_copyable MyPoly (Derived MyPoly)" "all_movable MyPoly (Derived MyPoly)"
  "copyable MyPoly Meower" "copyable MyPoly Woofer" "movable MyPoly Meower" "movable MyPoly Woofer"
  "is_abstract MyPoly MyBase" "\<not> is_abstract MyPoly Meower" "\<not> is_abstract MyPoly Woofer"
  by (simp_all add: all_copyable_def all_movable_def copyable_def movable_def
      is_copy_constructible_v_def is_copy_assignable_v_def is_move_constructible_v_def
      is_move_assignable_v_def MyPoly_def)

lemma traits_ConcretePoly:
  "all_copyable ConcretePoly (Derived ConcretePoly)" "all_movable ConcretePoly (Derived ConcretePoly)"
  "copyable ConcretePoly T" "movable ConcretePoly T" "\<not> is_abstract ConcretePoly T"
  by (simp_all add: all_copyable_def all_movable_def copyable_def movable_def
      is_copy_constructible_v_def is_copy_assignable_v_def is_move_constructible_v_def
      is_move_assignable_v_def MyPoly_def ConcretePoly_def)

lemma objs_one_meower:
  "objs one_meower a = (if a = 0 then \<lparr>data' = Some (Meower, 5), id' = 2\<rparr> else \<lparr>data' = None, id' = 0\<rparr>)"
  by (simp add: one_meower_def boot_def)

lemma inv_one_meower: "Poly_inv MyPoly (objs one_meower a)" "Poly_inv ConcretePoly (objs one_meower a)"
  by (simp_all add: objs_one_meower Poly_inv_def ID_MyPoly ID_ConcretePoly traits_ConcretePoly traits_MyPoly)

lemma objs_meower_and_woofer:
  "objs meower_and_woofer a =
     (if a = 0 then \<lparr>data' = Some (Meower, 5), id' = 2\<rparr>
      else if a = 1 then \<lparr>data' = Some (Woofer, 6), id' = 3\<rparr>
      else \<lparr>data' = None, id' = 0\<rparr>)"
  by (simp add: meower_and_woofer_def objs_one_meower)

lemma inv_meower_and_woofer: "Poly_inv ConcretePoly (objs meower_and_woofer a)"
  by (simp add: objs_meower_and_woofer Poly_inv_def ID_ConcretePoly traits_ConcretePoly)

lemma inv_meower_and_woofer_MyPoly: "Poly_inv MyPoly (objs meower_and_woofer a)"
  by (simp add: objs_meower_and_woofer Poly_inv_def ID_MyPoly traits_MyPoly)

lemma lambdas_MyPoly:
  "instantiated_for_all (\<lambda>T. is_abstract MyPoly T \<or> is_copy_constructible_v MyPoly T) MyPoly"
  "instantiated_for_all (\<lambda>T. is_abstract MyPoly T \<or> is_move_constructible_v MyPoly T) MyPoly"
  by (simp_all add: instantiated_for_all_def is_copy_constructible_v_def
      is_move_constructible_v_def MyPoly_def)

lemma lambdas_ConcretePoly:
  "instantiated_for_all (is_copy_constructible_v ConcretePoly) ConcretePoly"
  "instantiated_for_all (is_move_constructible_v ConcretePoly) ConcretePoly"
  by (simp_all add: instantiated_for_all_def is_copy_constructible_v_def
      is_move_constructible_v_def MyPoly_def ConcretePoly_def)

section \<open>The claims\<close>



text \<open>
  C2. \<open>visit\<close>, in both overloads and for every callback \<open>F\<close>: on an empty
  container the result is the unchanged state, so \<open>F\<close> is not called; on a container
  holding a \<open>T\<close> the result is that of the one call of \<open>F\<close> on the initial
  state, with a pointer of static type \<open>T\<close> (not \<open>Base\<close>) to the storage. With
  the callback that records its calls, the trace grows by no call and by exactly
  that one call.
\<close>

theorem C2_visit_calls_once_with_exact_type:
  assumes d: "distinct (Base env # Derived env)" and inv: "Poly_inv env (objs s this)"
  shows "(isEmpty this s \<longrightarrow>
            visit env F this s = Inr s \<and> visit_const env F this s = Inr s
            \<and> visit env log_call this s = Inr s \<and> visit_const env log_call this s = Inr s)
       \<and> (\<forall>T v. data' (objs s this) = Some (T, v) \<longrightarrow>
            visit env F this s = F (Pointer T (Some this)) s
            \<and> visit_const env F this s = F (Pointer T (Some this)) s
            \<and> visit env log_call this s
                = Inr (s\<lparr>trace := trace s @ [Call (Pointer T (Some this))]\<rparr>)
            \<and> visit_const env log_call this s
                = Inr (s\<lparr>trace := trace s @ [Call (Pointer T (Some this))]\<rparr>))
       \<and> (isEmpty this s \<or> (\<exists>T v. data' (objs s this) = Some (T, v)))"
proof (intro conjI allI impI)
  assume "isEmpty this s"
  then show "visit env F this s = Inr s" "visit_const env F this s = Inr s"
    "visit env log_call this s = Inr s" "visit_const env log_call this s = Inr s"
    by (simp_all add: visit_const_eq visit_empty)
next
  fix T v assume h: "data' (objs s this) = Some (T, v)"
  show "visit env F this s = F (Pointer T (Some this)) s"
    "visit_const env F this s = F (Pointer T (Some this)) s"
    "visit env log_call this s = Inr (s\<lparr>trace := trace s @ [Call (Pointer T (Some this))]\<rparr>)"
    "visit_const env log_call this s = Inr (s\<lparr>trace := trace s @ [Call (Pointer T (Some this))]\<rparr>)"
    by (simp_all add: visit_const_eq visit_holding [OF d inv h] log_call_def)
next
  show "isEmpty this s \<or> (\<exists>T v. data' (objs s this) = Some (T, v))"
    using Poly_inv_empty [OF inv] by (cases "data' (objs s this)") (auto simp: isEmpty_def)
qed

theorem C2_visit_calls_once_with_exact_type_witness:
  "distinct (Base MyPoly # Derived MyPoly) \<and> Poly_inv MyPoly (objs one_meower 0)
   \<and> Poly_inv MyPoly (objs one_meower 1)
   \<and> isEmpty 1 one_meower \<and> visit MyPoly log_call 1 one_meower = Inr one_meower
   \<and> data' (objs one_meower 0) = Some (Meower, 5)
   \<and> visit MyPoly log_call 0 one_meower
        = Inr (one_meower\<lparr>trace := trace one_meower @ [Call (Pointer Meower (Some 0))]\<rparr>)"
proof -
  have e: "isEmpty 1 one_meower" by (simp add: isEmpty_def objs_one_meower)
  have h: "data' (objs one_meower 0) = Some (Meower, 5)" by (simp add: objs_one_meower)
  from C2_visit_calls_once_with_exact_type [OF distinct_MyPoly inv_one_meower(1) [of 1]] e
  have a: "visit MyPoly log_call 1 one_meower = Inr one_meower" by blast
  from C2_visit_calls_once_with_exact_type [OF distinct_MyPoly inv_one_meower(1) [of 0]] h
  have b: "visit MyPoly log_call 0 one_meower
        = Inr (one_meower\<lparr>trace := trace one_meower @ [Call (Pointer Meower (Some 0))]\<rparr>)"
    by blast
  from a b e h distinct_MyPoly inv_one_meower(1) show ?thesis by blast
qed

text \<open>
  C3 (as the code has it). The registry is built over the list \<open>Base, D1, ..., Dn\<close>,
  not over \<open>D1, ..., Dn\<close>: \<open>Base\<close> gets tag 1 and \<open>Di\<close> gets tag \<open>i + 1\<close>
  (\<open>Derived env ! i\<close> is the variant number \<open>i + 1\<close>), so the tags of the types
  lie in \<open>[1, n + 1]\<close>, and 0 stays free for the empty state. \<open>IGetTy\<close> inverts
  \<open>IGetID\<close> on every type of the list; \<open>GetTy\<close> takes the position in the list,
  which is the tag minus one.
\<close>

theorem C3_tags_follow_list_with_Base_first:
  assumes "distinct (Base env # Derived env)"
  shows "ID env (Base env) = Inr 1
       \<and> (\<forall>i < length (Derived env). ID env (Derived env ! i) = Inr (i + 2))
       \<and> (\<forall>T \<in> set (Base env # Derived env).
            \<exists>k. ID env T = Inr k \<and> 1 \<le> k \<and> k \<le> length (Derived env) + 1
               \<and> IGetTy (BaseType env) k = Inr T \<and> GetTy env (k - 1) = Inr T)"
proof (intro conjI allI impI ballI)
  show "ID env (Base env) = Inr 1"
    using ID_nth [OF assms, of 0] by simp
next
  fix i assume "i < length (Derived env)"
  then show "ID env (Derived env ! i) = Inr (i + 2)"
    using ID_nth [OF assms, of "Suc i"] by simp
next
  fix T assume "T \<in> set (Base env # Derived env)"
  from ID_total [OF assms this]
  obtain i where i: "i < Suc (length (Derived env))" "(Base env # Derived env) ! i = T"
    "ID env T = Inr (Suc i)" by blast
  have "IGetTy (BaseType env) (Suc i) = Inr T"
    using IGetTy_nth [of i "Base env # Derived env"] i by (simp add: BaseType_def)
  with i show "\<exists>k. ID env T = Inr k \<and> 1 \<le> k \<and> k \<le> length (Derived env) + 1
               \<and> IGetTy (BaseType env) k = Inr T \<and> GetTy env (k - 1) = Inr T"
    by (auto simp: GetTy_def)
qed

theorem C3_tags_follow_list_with_Base_first_witness:
  "distinct (Base MyPoly # Derived MyPoly)
   \<and> ID MyPoly MyBase = Inr 1 \<and> ID MyPoly Meower = Inr 2 \<and> ID MyPoly Woofer = Inr 3"
proof -
  have d: "distinct (Base MyPoly # Derived MyPoly)" by (simp add: MyPoly_def)
  note c = C3_tags_follow_list_with_Base_first [OF d]
  from c have b: "ID MyPoly (Base MyPoly) = Inr 1" by blast
  from c have q: "\<And>i. i < length (Derived MyPoly) \<Longrightarrow> ID MyPoly (Derived MyPoly ! i) = Inr (i + 2)"
    by blast
  have m: "ID MyPoly Meower = Inr 2" using q [of 0] by (simp add: MyPoly_def)
  have w: "ID MyPoly Woofer = Inr 3" using q [of 1] by (simp add: MyPoly_def)
  from b d m w show ?thesis by (simp add: MyPoly_def)
qed

theorem C3_counterexample:
  "ID MyPoly (Derived MyPoly ! 0) \<noteq> Inr 1
   \<and> ID MyPoly (Derived MyPoly ! 1) = Inr 3 \<and> \<not> 3 \<le> length (Derived MyPoly)"
  by (simp add: ID_def GetID_def IGetID_def BaseType_def IPolyBase_def IPoly_def MyPoly_def
      upt_rec)

text \<open>
  C4. \<open>y = M\<close> of the README, on an empty container \<open>y\<close> at address 0, with
  \<open>M\<close> a \<open>Meower\<close>. The events of \<open>operator=(const U&)\<close> are, in this
  order: the tag written to 0 by \<open>destroySelf()\<close>, the tag written to 2, the
  construction of the \<open>Meower\<close>. The tag is written first and the payload is
  constructed after it, in this operator as in the constructors and the other
  assignment operators (\<open>Poly_from_copy_result\<close>, \<open>Poly_copy_result\<close>,
  \<open>Poly_move_result\<close>, \<open>assign_copy_result\<close>, \<open>assign_move_result\<close>); the
  order "the payload, then the tag" does not hold of these events. When the
  constructor of the payload is entered, the container has the tag 2 and nothing
  lives in its storage, which the invariant excludes: a copy constructor that throws
  leaves the container so, and \<open>destroySelf\<close> of that container runs the destructor
  of an object that is not there.
\<close>

theorem C4_tag_written_before_construction:
  "events_after (assign_from_copy MyPoly 0 Meower 5 boot)
     = [SetTag 0 0, SetTag 0 2, CopyConstruct 0 Meower 5]
   \<and> \<not> construct_then_tag MyPoly (payloads boot)
         (events_after (assign_from_copy MyPoly 0 Meower 5 boot))
   \<and> tag_then_construct MyPoly (tags boot)
         (events_after (assign_from_copy MyPoly 0 Meower 5 boot))
   \<and> object_after (reaches_new MyPoly 0 Meower boot) 0 = Inr \<lparr>data' = None, id' = 2\<rparr>
   \<and> \<not> Poly_inv MyPoly \<lparr>data' = None, id' = 2\<rparr>
   \<and> and_then (reaches_new MyPoly 0 Meower boot) (destroySelf MyPoly 0) = Inl Undefined"
proof -
  have i: "Poly_inv MyPoly (objs boot 0)" by (simp add: boot_def)
  have e: "events_after (assign_from_copy MyPoly 0 Meower 5 boot)
     = [SetTag 0 0, SetTag 0 2, CopyConstruct 0 Meower 5]"
    by (simp add: assign_from_copy_result [OF distinct_MyPoly i ID_MyPoly(2) traits_MyPoly(3)]
        events_after_def destroy_events_def) (simp add: boot_def)
  have r: "reaches_new MyPoly 0 Meower boot
      = Inr (set_id 0 2 (boot\<lparr>objs := (objs boot)(0 := \<lparr>data' = None, id' = 0\<rparr>),
                              trace := trace boot @ destroy_events 0 boot\<rparr>))"
    by (simp add: reaches_new_def destroySelf_result [OF distinct_MyPoly i] ID_MyPoly)
  have u: "and_then (reaches_new MyPoly 0 Meower boot) (destroySelf MyPoly 0) = Inl Undefined"
    unfolding r
    by (simp add: destroySelf_def visit_def isEmpty_def ID_MyPoly list_MyPoly getPtr_def
        launder_cast_def destroy_at_def deref_def)
  have o: "object_after (reaches_new MyPoly 0 Meower boot) 0 = Inr \<lparr>data' = None, id' = 2\<rparr>"
    unfolding r by (simp add: object_after_def)
  have n: "\<not> Poly_inv MyPoly \<lparr>data' = None, id' = 2\<rparr>" by (simp add: Poly_inv_def)
  show ?thesis unfolding e using o n u
    by (simp add: payloads_def tags_def boot_def ID_MyPoly)
qed

text \<open>
  C5. The copy assignment of a container to itself, \<open>x.operator=<void>(x)\<close>, in
  \<open>Poly<MyBase, Meower, Woofer>\<close> with a concrete \<open>MyBase\<close>. The container at
  address 0 holds the \<open>Meower\<close> 5 with tag 2. The operator has no check for
  \<open>this == &p\<close>: it destroys the payload and writes the tag to 0, then reads the
  tag of \<open>p\<close>, which is now 0, and visits \<open>p\<close>, which is now empty. Afterwards
  the container holds nothing, \<open>holdsType<Meower>()\<close> is false, and the only
  lifetime event is the destruction of the \<open>Meower\<close>: the source of the copy
  is not left unchanged.
\<close>

theorem C5_self_copy_assignment_loses_value:
  "objs one_meower 0 = \<lparr>data' = Some (Meower, 5), id' = 2\<rparr>
   \<and> object_after (assign_copy ConcretePoly Named 0 0 one_meower) 0
       = Inr \<lparr>data' = None, id' = 0\<rparr>
   \<and> and_then (assign_copy ConcretePoly Named 0 0 one_meower) (holdsType ConcretePoly Meower 0)
       = Inr False
   \<and> events_after (assign_copy ConcretePoly Named 0 0 one_meower)
       = trace one_meower @ [Destroy 0 Meower 5, SetTag 0 0, SetTag 0 0]"
  by (simp add: objs_one_meower object_after_def events_after_def destroy_events_def
      assign_copy_self_result [OF distinct_ConcretePoly traits_ConcretePoly(1)
        lambdas_ConcretePoly(1) inv_one_meower(2)]
      holdsType_iff [OF ID_ConcretePoly(2)])

text \<open>
  C6. A container holding an \<open>A\<close> is assigned a value of a type \<open>B\<close> of the list,
  by \<open>operator=(const U&)\<close> or by \<open>operator=(U&&)\<close>. The events are, in this
  order: the destructor of the \<open>A\<close>, the tag written to 0, the tag written to the
  tag of \<open>B\<close>, the construction of the \<open>B\<close>; also when \<open>A = B\<close>. Afterwards
  \<open>holdsType<B>()\<close> is true, and \<open>holdsType<A>()\<close> is false when \<open>A \<noteq> B\<close>.
\<close>

theorem C6_reassignment_destroys_then_constructs:
  assumes d: "distinct (Base env # Derived env)" and inv: "Poly_inv env (objs s this)"
    and h: "data' (objs s this) = Some (A, a)"
    and B: "B \<in> set (Base env # Derived env)"
  shows "\<exists>k. ID env B = Inr k
       \<and> (copyable env B \<longrightarrow>
            (\<exists>s'. assign_from_copy env this B b s = Inr s'
               \<and> trace s' = trace s @ [Destroy this A a, SetTag this 0, SetTag this k,
                                        CopyConstruct this B b]
               \<and> data' (objs s' this) = Some (B, b)
               \<and> holdsType env B this s' = Inr True
               \<and> (A \<noteq> B \<longrightarrow> holdsType env A this s' = Inr False)))
       \<and> (movable env B \<longrightarrow>
            (\<exists>s'. assign_from_move env this B b s = Inr s'
               \<and> trace s' = trace s @ [Destroy this A a, SetTag this 0, SetTag this k,
                                        MoveConstruct this B b]
               \<and> data' (objs s' this) = Some (B, b)
               \<and> holdsType env B this s' = Inr True
               \<and> (A \<noteq> B \<longrightarrow> holdsType env A this s' = Inr False)))"
proof -
  from ID_total [OF d B] obtain i where k: "ID env B = Inr (Suc i)" by blast
  note kA = Poly_inv_holding(1) [OF d inv h]
  have ne: "A \<noteq> B \<longrightarrow> Suc i \<noteq> id' (objs s this)"
    using ID_inj [OF d kA] k by auto
  show ?thesis
  proof (intro exI [of _ "Suc i"] conjI impI)
    show "ID env B = Inr (Suc i)" by (rule k)
  next
    assume c: "copyable env B"
    from h ne show "\<exists>s'. assign_from_copy env this B b s = Inr s'
               \<and> trace s' = trace s @ [Destroy this A a, SetTag this 0, SetTag this (Suc i),
                                        CopyConstruct this B b]
               \<and> data' (objs s' this) = Some (B, b)
               \<and> holdsType env B this s' = Inr True
               \<and> (A \<noteq> B \<longrightarrow> holdsType env A this s' = Inr False)"
      by (simp add: assign_from_copy_result [OF d inv k c] destroy_events_def
          holdsType_iff [OF k] holdsType_iff [OF kA])
  next
    assume c: "movable env B"
    from h ne show "\<exists>s'. assign_from_move env this B b s = Inr s'
               \<and> trace s' = trace s @ [Destroy this A a, SetTag this 0, SetTag this (Suc i),
                                        MoveConstruct this B b]
               \<and> data' (objs s' this) = Some (B, b)
               \<and> holdsType env B this s' = Inr True
               \<and> (A \<noteq> B \<longrightarrow> holdsType env A this s' = Inr False)"
      by (simp add: assign_from_move_result [OF d inv k c] destroy_events_def
          holdsType_iff [OF k] holdsType_iff [OF kA])
  qed
qed

theorem C6_reassignment_destroys_then_constructs_witness:
  "distinct (Base MyPoly # Derived MyPoly) \<and> Poly_inv MyPoly (objs one_meower 0)
   \<and> data' (objs one_meower 0) = Some (Meower, 5) \<and> Woofer \<in> set (Base MyPoly # Derived MyPoly)
   \<and> copyable MyPoly Woofer \<and> movable MyPoly Woofer \<and> Meower \<noteq> Woofer
   \<and> (\<exists>s'. assign_from_move MyPoly 0 Woofer 6 one_meower = Inr s'
         \<and> trace s' = trace one_meower @ [Destroy 0 Meower 5, SetTag 0 0, SetTag 0 3,
                                           MoveConstruct 0 Woofer 6]
         \<and> holdsType MyPoly Woofer 0 s' = Inr True
         \<and> holdsType MyPoly Meower 0 s' = Inr False)"
proof -
  have h: "data' (objs one_meower 0) = Some (Meower, 5)" by (simp add: objs_one_meower)
  have B: "Woofer \<in> set (Base MyPoly # Derived MyPoly)" by (simp add: MyPoly_def)
  from C6_reassignment_destroys_then_constructs [OF distinct_MyPoly inv_one_meower(1) h B, of 6]
  have "\<exists>s'. assign_from_move MyPoly 0 Woofer 6 one_meower = Inr s'
         \<and> trace s' = trace one_meower @ [Destroy 0 Meower 5, SetTag 0 0, SetTag 0 3,
                                           MoveConstruct 0 Woofer 6]
         \<and> holdsType MyPoly Woofer 0 s' = Inr True
         \<and> holdsType MyPoly Meower 0 s' = Inr False"
    using traits_MyPoly(6) by (auto simp: ID_MyPoly)
  with h B distinct_MyPoly inv_one_meower(1) traits_MyPoly show ?thesis by simp
qed

text \<open>
  C7 (as the code has it). \<open>operator->\<close>, const and non-const. On an empty
  container the assertion \<open>POLY_ASSERT(holdsAny())\<close> fails. On a container that
  holds a value the result is a pointer of static type \<open>Base\<close> that is not null:
  it is the address of the storage, where the held object begins, taken as a
  \<open>Base*\<close> (\<open>&data_.base_\<close>, for an abstract \<open>Base\<close> the
  \<open>reinterpret_cast\<close> of \<open>AbstractBase\<close>). It views the held object, so that
  a call through it reaches the held object's own function, when the \<open>Base\<close>
  subobject of the held type begins where the object begins.
\<close>

theorem C7_arrow_points_at_the_storage:
  assumes d: "distinct (Base env # Derived env)" and inv: "Poly_inv env (objs s this)"
  shows "(isEmpty this s \<longrightarrow>
            arrow env this s = Inl AssertionFailed \<and> arrow_const env this s = Inl AssertionFailed
            \<and> arrow_call env this s = Inl AssertionFailed)
       \<and> (\<forall>T v. data' (objs s this) = Some (T, v) \<longrightarrow>
            holdsAny this s
            \<and> arrow env this s = Inr (Pointer (Base env) (Some this))
            \<and> arrow_const env this s = Inr (Pointer (Base env) (Some this))
            \<and> (subobject_offset env T = 0 \<longrightarrow>
                 interface_call env (Pointer (Base env) (Some this)) s = Inr (T, v)
                 \<and> arrow_call env this s = Inr (T, v)))
       \<and> (holdsAny this s \<longrightarrow> (\<exists>T v. data' (objs s this) = Some (T, v)))"
proof (intro conjI allI impI)
  assume "isEmpty this s"
  then show "arrow env this s = Inl AssertionFailed" "arrow_const env this s = Inl AssertionFailed"
    "arrow_call env this s = Inl AssertionFailed"
    by (simp_all add: arrow_call_def arrow_def arrow_const_def isEmpty_def holdsAny_def)
next
  fix T v assume h: "data' (objs s this) = Some (T, v)"
  from Poly_inv_holding(2) [OF d inv h] show a: "holdsAny this s" by (simp add: holdsAny_def)
  then show p: "arrow env this s = Inr (Pointer (Base env) (Some this))"
    "arrow_const env this s = Inr (Pointer (Base env) (Some this))"
    by (simp_all add: arrow_def arrow_const_def getPtr_def holdsAny_def)
  assume "subobject_offset env T = 0"
  with h show "interface_call env (Pointer (Base env) (Some this)) s = Inr (T, v)"
    by (simp add: interface_call_def)
  with p show "arrow_call env this s = Inr (T, v)" by (simp add: arrow_call_def)
next
  assume "holdsAny this s"
  with Poly_inv_empty [OF inv] show "\<exists>T v. data' (objs s this) = Some (T, v)"
    by (cases "data' (objs s this)") (auto simp: holdsAny_def)
qed

theorem C7_arrow_points_at_the_storage_witness:
  "distinct (Base MyPoly # Derived MyPoly) \<and> Poly_inv MyPoly (objs one_meower 0)
   \<and> Poly_inv MyPoly (objs one_meower 1)
   \<and> isEmpty 1 one_meower \<and> arrow MyPoly 1 one_meower = Inl AssertionFailed
   \<and> data' (objs one_meower 0) = Some (Meower, 5) \<and> subobject_offset MyPoly Meower = 0
   \<and> arrow MyPoly 0 one_meower = Inr (Pointer MyBase (Some 0))
   \<and> arrow_call MyPoly 0 one_meower = Inr (Meower, 5)"
proof -
  have e: "isEmpty 1 one_meower" by (simp add: isEmpty_def objs_one_meower)
  have h: "data' (objs one_meower 0) = Some (Meower, 5)" by (simp add: objs_one_meower)
  have z: "subobject_offset MyPoly Meower = 0" by (simp add: subobject_offset_def MyPoly_def)
  from C7_arrow_points_at_the_storage [OF distinct_MyPoly inv_one_meower(1) [of 1]] e
  have x: "arrow MyPoly 1 one_meower = Inl AssertionFailed" by blast
  from C7_arrow_points_at_the_storage [OF distinct_MyPoly inv_one_meower(1) [of 0]] h z
  have "arrow MyPoly 0 one_meower = Inr (Pointer (Base MyPoly) (Some 0))
     \<and> arrow_call MyPoly 0 one_meower = Inr (Meower, 5)" by blast
  then have y: "arrow MyPoly 0 one_meower = Inr (Pointer MyBase (Some 0))"
    "arrow_call MyPoly 0 one_meower = Inr (Meower, 5)" by (simp_all add: list_MyPoly)
  from x y e h z distinct_MyPoly inv_one_meower(1) show ?thesis by blast
qed

text \<open>
  With \<open>struct Meower : Other, MyBase\<close> the \<open>MyBase\<close> subobject of a
  \<open>Meower\<close> begins 8 bytes into the object. The container holds the \<open>Meower\<close>
  5; \<open>operator->\<close> returns the address of the storage as a \<open>MyBase*\<close>, where no
  \<open>MyBase\<close> begins, and the call through it is undefined.
\<close>

theorem C7_counterexample:
  "holdsAny 0 one_meower \<and> objs one_meower 0 = \<lparr>data' = Some (Meower, 5), id' = 2\<rparr>
   \<and> subobject_offset SecondBasePoly Meower = 8
   \<and> arrow SecondBasePoly 0 one_meower = Inr (Pointer MyBase (Some 0))
   \<and> interface_call SecondBasePoly (Pointer MyBase (Some 0)) one_meower = Inl Undefined
   \<and> arrow_call SecondBasePoly 0 one_meower = Inl Undefined"
  by (simp add: holdsAny_def objs_one_meower subobject_offset_def arrow_call_def arrow_def
      getPtr_def interface_call_def SecondBasePoly_def MyPoly_def)

text \<open>
  C8. \<open>Driver.cpp\<close> exchanges two containers of \<open>Poly<MyBase, Meower, Woofer>\<close>
  with \<open>std::swap(x, z)\<close> and with \<open>z.swap(x)\<close>, and asserts afterwards that
  the held types are exchanged. The header declares no member \<open>swap\<close>.
  \<open>std::swap\<close> move-constructs a temporary from \<open>x\<close> and then evaluates
  \<open>x = std::move(z)\<close> and \<open>z = std::move(tmp)\<close>. With \<open>x\<close> at address 0
  holding the \<open>Meower\<close> 5, \<open>z\<close> at address 1 holding the \<open>Woofer\<close> 6 and the
  temporary at address 2: the move construction does its work, and the move
  assignment is refused, as an expression for every instantiation, and for the
  abstract \<open>MyBase\<close> of the driver also when the template is called by name,
  because its lambda, unlike that of the move constructor, has no
  \<open>if constexpr\<close> and is instantiated at \<open>MyBase\<close>. The containers cannot be
  swapped.
\<close>

theorem C8_swap_meets_rejected_move_assignment:
  "object_after (Poly_move MyPoly 2 0 meower_and_woofer) 2
     = Inr \<lparr>data' = Some (Meower, 5), id' = 2\<rparr>
   \<and> object_after (Poly_move MyPoly 2 0 meower_and_woofer) 0 = Inr \<lparr>data' = None, id' = 0\<rparr>
   \<and> assign_move MyPoly Expression 0 1 meower_and_woofer = Inl Rejected
   \<and> assign_move MyPoly Named 0 1 meower_and_woofer = Inl Rejected
   \<and> assign_move ConcretePoly Expression 0 1 meower_and_woofer = Inl Rejected"
proof -
  have ne: "(2::nat) \<noteq> 0" by simp
  have a: "is_abstract MyPoly (Base MyPoly)" by (simp add: MyPoly_def)
  show ?thesis
    by (simp add: object_after_def objs_meower_and_woofer
        Poly_move_result [OF distinct_MyPoly traits_MyPoly(2) lambdas_MyPoly(2) ne
          inv_meower_and_woofer_MyPoly]
        assignment_expression_rejected assignment_abstract_Base_rejected [OF a])
qed



text \<open>
  C10. The constructors and assignment operators that take a value accept the types
  \<open>Base, D1, ..., Dn\<close>. A \<open>Base\<close> that is copyable (movable), hence not abstract,
  is accepted like a variant: the value is stored, the tag is 1, the first tag,
  and \<open>holdsType<Base>()\<close> is true. With an abstract \<open>Base\<close> all four
  operations are rejected at compile time.
\<close>

theorem C10_concrete_Base_is_a_variant:
  assumes d: "distinct (Base env # Derived env)" and inv: "Poly_inv env (objs s this)"
  shows "ID env (Base env) = Inr 1
       \<and> (\<forall>U. matches_any U (Base env # Derived env) = (U = Base env \<or> U \<in> set (Derived env)))
       \<and> (copyable env (Base env) \<longrightarrow>
            (\<exists>s1 s2. Poly_from_copy env this (Base env) u s = Inr s1
               \<and> assign_from_copy env this (Base env) u s = Inr s2
               \<and> objs s1 this = \<lparr>data' = Some (Base env, u), id' = 1\<rparr>
               \<and> objs s2 this = \<lparr>data' = Some (Base env, u), id' = 1\<rparr>
               \<and> holdsType env (Base env) this s1 = Inr True
               \<and> holdsType env (Base env) this s2 = Inr True))
       \<and> (movable env (Base env) \<longrightarrow>
            (\<exists>s1 s2. Poly_from_move env this (Base env) u s = Inr s1
               \<and> assign_from_move env this (Base env) u s = Inr s2
               \<and> objs s1 this = \<lparr>data' = Some (Base env, u), id' = 1\<rparr>
               \<and> objs s2 this = \<lparr>data' = Some (Base env, u), id' = 1\<rparr>
               \<and> holdsType env (Base env) this s1 = Inr True
               \<and> holdsType env (Base env) this s2 = Inr True))
       \<and> (is_abstract env (Base env) \<longrightarrow>
            Poly_from_copy env this (Base env) u s = Inl Rejected
            \<and> Poly_from_move env this (Base env) u s = Inl Rejected
            \<and> assign_from_copy env this (Base env) u s = Inl Rejected
            \<and> assign_from_move env this (Base env) u s = Inl Rejected)"
proof -
  have k: "ID env (Base env) = Inr 1" using ID_nth [OF d, of 0] by simp
  show ?thesis
  proof (intro conjI allI impI)
    show "ID env (Base env) = Inr 1" by (rule k)
  next
    fix U show "matches_any U (Base env # Derived env) = (U = Base env \<or> U \<in> set (Derived env))"
      by (simp add: matches_any_iff)
  next
    assume c: "copyable env (Base env)"
    show "\<exists>s1 s2. Poly_from_copy env this (Base env) u s = Inr s1
               \<and> assign_from_copy env this (Base env) u s = Inr s2
               \<and> objs s1 this = \<lparr>data' = Some (Base env, u), id' = 1\<rparr>
               \<and> objs s2 this = \<lparr>data' = Some (Base env, u), id' = 1\<rparr>
               \<and> holdsType env (Base env) this s1 = Inr True
               \<and> holdsType env (Base env) this s2 = Inr True"
      by (simp add: Poly_from_copy_result [OF k c] assign_from_copy_result [OF d inv k c]
          holdsType_iff [OF k])
  next
    assume c: "movable env (Base env)"
    show "\<exists>s1 s2. Poly_from_move env this (Base env) u s = Inr s1
               \<and> assign_from_move env this (Base env) u s = Inr s2
               \<and> objs s1 this = \<lparr>data' = Some (Base env, u), id' = 1\<rparr>
               \<and> objs s2 this = \<lparr>data' = Some (Base env, u), id' = 1\<rparr>
               \<and> holdsType env (Base env) this s1 = Inr True
               \<and> holdsType env (Base env) this s2 = Inr True"
      by (simp add: Poly_from_move_result [OF k c] assign_from_move_result [OF d inv k c]
          holdsType_iff [OF k])
  next
    assume a: "is_abstract env (Base env)"
    then have "\<not> copyable env (Base env)" "\<not> movable env (Base env)"
      using copyable_concrete [of env "Base env"] movable_concrete [of env "Base env"] by auto
    then show "Poly_from_copy env this (Base env) u s = Inl Rejected"
      "Poly_from_move env this (Base env) u s = Inl Rejected"
      "assign_from_copy env this (Base env) u s = Inl Rejected"
      "assign_from_move env this (Base env) u s = Inl Rejected"
      by (simp_all add: Poly_from_copy_def Poly_from_move_def assign_from_copy_def
          assign_from_move_def)
  qed
qed

theorem C10_concrete_Base_is_a_variant_witness:
  "distinct (Base ConcretePoly # Derived ConcretePoly) \<and> Poly_inv ConcretePoly (objs one_meower 0)
   \<and> copyable ConcretePoly (Base ConcretePoly)
   \<and> (\<exists>s2. assign_from_copy ConcretePoly 0 MyBase 7 one_meower = Inr s2
          \<and> objs s2 0 = \<lparr>data' = Some (MyBase, 7), id' = 1\<rparr>
          \<and> holdsType ConcretePoly MyBase 0 s2 = Inr True)
   \<and> distinct (Base MyPoly # Derived MyPoly) \<and> Poly_inv MyPoly (objs one_meower 0)
   \<and> is_abstract MyPoly (Base MyPoly)
   \<and> assign_from_copy MyPoly 0 MyBase 7 one_meower = Inl Rejected
   \<and> Poly_from_move MyPoly 0 MyBase 7 one_meower = Inl Rejected"
proof -
  have b: "Base ConcretePoly = MyBase" "Base MyPoly = MyBase"
    by (simp_all add: ConcretePoly_def MyPoly_def)
  have c: "copyable ConcretePoly (Base ConcretePoly)" by (rule traits_ConcretePoly)
  have a: "is_abstract MyPoly (Base MyPoly)" by (simp add: MyPoly_def)
  from C10_concrete_Base_is_a_variant [OF distinct_ConcretePoly inv_one_meower(2), of 0 7] c
  have x: "\<exists>s2. assign_from_copy ConcretePoly 0 MyBase 7 one_meower = Inr s2
          \<and> objs s2 0 = \<lparr>data' = Some (MyBase, 7), id' = 1\<rparr>
          \<and> holdsType ConcretePoly MyBase 0 s2 = Inr True"
    unfolding b by blast
  from C10_concrete_Base_is_a_variant [OF distinct_MyPoly inv_one_meower(1), of 0 7] a
  have y: "assign_from_copy MyPoly 0 MyBase 7 one_meower = Inl Rejected
     \<and> Poly_from_move MyPoly 0 MyBase 7 one_meower = Inl Rejected"
    unfolding b by blast
  from x y a c distinct_ConcretePoly distinct_MyPoly inv_one_meower show ?thesis by blast
qed

end
